theory Spec2Isabelle
  imports Main "HOL-Library.Word" "HOL-Library.Sublist" "HOL-Library.AList"
begin

section \<open>JavaScript strings\<close>

text \<open>
  A JavaScript string is a sequence of 16-bit code units. The regular expression of
  \<^verbatim>\<open>extractTitle\<close> has no \<^verbatim>\<open>u\<close> flag, so it works on code units too.
  \<open>js\<close> turns a literal of the theory into such a string.
\<close>

type_synonym jsstring = "16 word list"

definition js :: "string \<Rightarrow> jsstring" where
  "js s = map of_char s"

definition isLineTerminator :: "16 word \<Rightarrow> bool" where
  \<comment> \<open>LF, CR, LINE SEPARATOR, PARAGRAPH SEPARATOR: what \<^verbatim>\<open>.\<close> does not match.\<close>
  "isLineTerminator c \<longleftrightarrow> c = 0x0A \<or> c = 0x0D \<or> c = 0x2028 \<or> c = 0x2029"

definition isWhiteSpace :: "16 word \<Rightarrow> bool" where
  \<comment> \<open>TAB, VT, FF, SP, NBSP, ZWNBSP and the code units of category Zs.\<close>
  "isWhiteSpace c \<longleftrightarrow>
     c = 0x09 \<or> c = 0x0B \<or> c = 0x0C \<or> c = 0x20 \<or> c = 0xA0 \<or> c = 0x1680 \<or>
     (0x2000 \<le> c \<and> c \<le> 0x200A) \<or> c = 0x202F \<or> c = 0x205F \<or> c = 0x3000 \<or> c = 0xFEFF"

definition isSpace :: "16 word \<Rightarrow> bool" where
  \<comment> \<open>The class \<^verbatim>\<open>\s\<close>, which is also what \<^verbatim>\<open>trim\<close> strips.\<close>
  "isSpace c \<longleftrightarrow> isWhiteSpace c \<or> isLineTerminator c"

fun split_nl :: "jsstring \<Rightarrow> jsstring list" where
  \<comment> \<open>\<^verbatim>\<open>s.split('\n')\<close>: the pieces between line feeds; never an empty list.\<close>
  "split_nl [] = [[]]"
| "split_nl (c # cs) =
     (if c = 0x0A then [] # split_nl cs
      else (case split_nl cs of l # ls \<Rightarrow> (c # l) # ls | [] \<Rightarrow> [[c]]))"

definition trim :: "jsstring \<Rightarrow> jsstring" where
  \<comment> \<open>\<^verbatim>\<open>s.trim()\<close>\<close>
  "trim s = rev (dropWhile isSpace (rev (dropWhile isSpace s)))"

fun replace_first :: "jsstring \<Rightarrow> jsstring \<Rightarrow> jsstring \<Rightarrow> jsstring" where
  \<comment> \<open>\<^verbatim>\<open>s.replace(pat, rep)\<close> with a string pattern (and a replacement free of
      \<^verbatim>\<open>$\<close>): only the first occurrence of \<open>pat\<close> is replaced.\<close>
  "replace_first pat rep [] = (if pat = [] then rep else [])"
| "replace_first pat rep (c # cs) =
     (if prefix pat (c # cs) then rep @ drop (length pat) (c # cs)
      else c # replace_first pat rep cs)"

definition endsWith :: "jsstring \<Rightarrow> jsstring \<Rightarrow> bool" where
  \<comment> \<open>\<^verbatim>\<open>s.endsWith(t)\<close>\<close>
  "endsWith s t \<longleftrightarrow> suffix t s"

section \<open>Title extraction\<close>

text \<open>
  \<^verbatim>\<open>line.match(/^#\s+(.+)$/)\<close>, as the backtracking matcher runs it. The pattern is
  anchored at both ends of the line (no \<^verbatim>\<open>m\<close> flag). \<open>dot_plus\<close> is the group
  \<^verbatim>\<open>(.+)$\<close>: at least one code unit, none of them a line terminator, up to the end.
  \<open>space_plus\<close> is entered once \<^verbatim>\<open>\s+\<close> has taken its first code unit: being greedy
  it takes the next one too when it can, and gives it back when the rest then fails.
  The result is the text of group 1, or None when the line does not match.
\<close>

definition dot_plus :: "jsstring \<Rightarrow> jsstring option" where
  "dot_plus s = (if s \<noteq> [] \<and> filter isLineTerminator s = [] then Some s else None)"

fun space_plus :: "jsstring \<Rightarrow> jsstring option" where
  "space_plus [] = None"
| "space_plus (c # cs) =
     (if isSpace c
      then (case space_plus cs of Some m \<Rightarrow> Some m | None \<Rightarrow> dot_plus (c # cs))
      else dot_plus (c # cs))"

fun heading_match :: "jsstring \<Rightarrow> jsstring option" where
  "heading_match (h # c # cs) = (if h = 0x23 \<and> isSpace c then space_plus cs else None)"
| "heading_match _ = None"

fun first_heading :: "jsstring list \<Rightarrow> jsstring option" where
  \<comment> \<open>The loop over the lines: group 1 of the first line that matches.\<close>
  "first_heading [] = None"
| "first_heading (l # ls) =
     (case heading_match l of Some m \<Rightarrow> Some m | None \<Rightarrow> first_heading ls)"

definition extractTitle :: "jsstring \<Rightarrow> jsstring \<Rightarrow> jsstring" where
  "extractTitle body fname =
     (case first_heading (split_nl body) of
        Some m \<Rightarrow> trim m
      | None \<Rightarrow> replace_first (js ''.md'') [] fname)"

section \<open>Rules and JavaScript objects keyed by file name\<close>

text \<open>
  The local server's \<^verbatim>\<open>Rule\<close> has three fields; the GitHub server's has the blob
  identifier \<^verbatim>\<open>sha\<close> as well.
\<close>

record LocalRule =
  filename :: jsstring
  title :: jsstring
  content :: jsstring

record Rule = LocalRule +
  sha :: jsstring

text \<open>
  \<^verbatim>\<open>{ [filename: string]: Rule }\<close> is an ordinary object. Its own keys are kept in
  insertion order (no key here is an array index: every key written ends in
  \<^verbatim>\<open>.md\<close>), and writing an existing key keeps its place: an association list with
  \<open>AList.update\<close>. Reading a key that is not an own property goes on to
  \<^verbatim>\<open>Object.prototype\<close>, whose properties are all truthy and have no
  \<^verbatim>\<open>content\<close>.
\<close>

definition Object_prototype_keys :: "jsstring list" where
  "Object_prototype_keys = map js
     [''constructor'', ''__defineGetter__'', ''__defineSetter__'', ''hasOwnProperty'',
      ''__lookupGetter__'', ''__lookupSetter__'', ''isPrototypeOf'',
      ''propertyIsEnumerable'', ''toString'', ''valueOf'', ''__proto__'',
      ''toLocaleString'']"

datatype 'r property = Undefined | Own 'r | Inherited

definition get_property :: "(jsstring \<times> 'r) list \<Rightarrow> jsstring \<Rightarrow> 'r property" where
  \<comment> \<open>\<^verbatim>\<open>rules[key]\<close>\<close>
  "get_property rules key =
     (case map_of rules key of
        Some r \<Rightarrow> Own r
      | None \<Rightarrow> if key \<in> set Object_prototype_keys then Inherited else Undefined)"

section \<open>The GitHub server\<close>

subsection \<open>The network\<close>

text \<open>
  One entry of the directory listing of the contents API, and what a \<^verbatim>\<open>fetch\<close> can
  come to. A rejected promise (a network error) is \<open>ListingRejected\<close> or
  \<open>ContentRejected\<close>. A listing response has its status, the value of
  \<^verbatim>\<open>headers.get('etag')\<close> (None for \<^verbatim>\<open>null\<close>), and its payload: None when
  \<^verbatim>\<open>response.json()\<close> rejects or when the parsed value is not an array of entries
  that the \<^verbatim>\<open>filter\<close> callback can process, both of which throw before the loop
  over the files starts. A content response has its status and its text: None when
  \<^verbatim>\<open>text()\<close> rejects.

  The listing is requested at a fixed URL, so the network answers it by the value of the
  \<^verbatim>\<open>If-None-Match\<close> header alone; a document is requested by its
  \<^verbatim>\<open>download_url\<close>. Each refresh cycle is run against the network of its moment.
\<close>

record github_file =
  gh_name :: jsstring
  gh_sha :: jsstring
  gh_download_url :: jsstring
  gh_type :: jsstring

datatype listing_response =
    ListingRejected
  | ListingResponse nat "jsstring option" "github_file list option"

datatype content_response =
    ContentRejected
  | ContentResponse nat "jsstring option"

record network =
  listing :: "jsstring option \<Rightarrow> listing_response"
  download :: "jsstring \<Rightarrow> content_response"

definition ok :: "nat \<Rightarrow> bool" where
  \<comment> \<open>\<^verbatim>\<open>response.ok\<close>\<close>
  "ok status \<longleftrightarrow> 200 \<le> status \<and> status \<le> 299"

subsection \<open>The globals and the effects\<close>

text \<open>
  The two module variables, and a record of what the server has done so far, oldest
  first: every HTTP request it has sent (the URL and the \<^verbatim>\<open>If-None-Match\<close> header,
  if any) and every assignment to \<^verbatim>\<open>lastEtag\<close>. The lines written with
  \<^verbatim>\<open>console.error\<close> are not modelled.
\<close>

datatype effect = HttpGet jsstring "jsstring option" | StoreEtag jsstring

record state =
  cachedRules :: "(jsstring \<times> Rule) list"
  lastEtag :: "jsstring option"
  effects :: "effect list"

definition GITHUB_OWNER :: jsstring where "GITHUB_OWNER = js ''ln613''"
definition GITHUB_REPO :: jsstring where "GITHUB_REPO = js ''roo-rules-server''"
definition GITHUB_BRANCH :: jsstring where "GITHUB_BRANCH = js ''master''"
definition RULES_PATH :: jsstring where "RULES_PATH = js ''rules''"

definition apiUrl :: jsstring where
  "apiUrl = js ''https://api.github.com/repos/'' @ GITHUB_OWNER @ js ''/'' @ GITHUB_REPO
     @ js ''/contents/'' @ RULES_PATH @ js ''?ref='' @ GITHUB_BRANCH"

definition truthy :: "jsstring option \<Rightarrow> bool" where
  \<comment> \<open>\<^verbatim>\<open>if (s)\<close> for a string or \<^verbatim>\<open>null\<close>: the empty string is falsy too.\<close>
  "truthy s = (case s of None \<Rightarrow> False | Some e \<Rightarrow> e \<noteq> [])"

definition if_none_match :: "state \<Rightarrow> jsstring option" where
  \<comment> \<open>The header \<^verbatim>\<open>If-None-Match\<close> of the listing request.\<close>
  "if_none_match st = (if truthy (lastEtag st) then lastEtag st else None)"

definition perform :: "effect \<Rightarrow> state \<Rightarrow> state" where
  "perform e st = st\<lparr>effects := effects st @ [e]\<rparr>"

subsection \<open>fetchRulesFromGitHub\<close>

definition mkRule :: "github_file \<Rightarrow> jsstring \<Rightarrow> Rule" where
  "mkRule file body =
     \<lparr>filename = gh_name file, title = extractTitle body (gh_name file),
      content = body, sha = gh_sha file\<rparr>"

fun fetch_contents ::
  "network \<Rightarrow> github_file list \<Rightarrow> (jsstring \<times> Rule) list \<Rightarrow> state
     \<Rightarrow> (jsstring \<times> Rule) list \<times> state" where
  \<comment> \<open>The loop over \<^verbatim>\<open>mdFiles\<close>. Its body is a \<^verbatim>\<open>try\<close> whose \<^verbatim>\<open>catch\<close> only logs,
      so a rejected fetch, a status that is not ok and a rejected \<^verbatim>\<open>text()\<close> all go on
      to the next file with \<^verbatim>\<open>rules\<close> as it was.\<close>
  "fetch_contents net [] rules st = (rules, st)"
| "fetch_contents net (file # files) rules st =
     (let st' = perform (HttpGet (gh_download_url file) None) st
      in case download net (gh_download_url file) of
           ContentRejected \<Rightarrow> fetch_contents net files rules st'
         | ContentResponse status body \<Rightarrow>
             if \<not> ok status then fetch_contents net files rules st'
             else (case body of
                     None \<Rightarrow> fetch_contents net files rules st'
                   | Some b \<Rightarrow>
                       fetch_contents net files
                         (AList.update (gh_name file) (mkRule file b) rules) st'))"

text \<open>
  How the \<^verbatim>\<open>try\<close> block of \<^verbatim>\<open>fetchRulesFromGitHub\<close> ends: it returns a value, it
  throws, or it runs to its end. With the outcome come the local variable
  \<^verbatim>\<open>rules\<close> and the state at that point.
\<close>

datatype 'a completion = Return 'a | Throw | Normal

definition mdFiles :: "github_file list \<Rightarrow> github_file list" where
  "mdFiles files =
     filter (\<lambda>file. gh_type file = js ''file'' \<and> endsWith (gh_name file) (js ''.md'')) files"

definition store_etag :: "jsstring option \<Rightarrow> state \<Rightarrow> state" where
  \<comment> \<open>\<^verbatim>\<open>if (newEtag) { lastEtag = newEtag; }\<close>\<close>
  "store_etag newEtag st =
     (case newEtag of
        None \<Rightarrow> st
      | Some e \<Rightarrow> if e \<noteq> [] then perform (StoreEtag e) (st\<lparr>lastEtag := Some e\<rparr>) else st)"

definition try_block ::
  "network \<Rightarrow> state \<Rightarrow> (jsstring \<times> Rule) list completion \<times> (jsstring \<times> Rule) list \<times> state" where
  "try_block net st =
     (let st1 = perform (HttpGet apiUrl (if_none_match st)) st
      in case listing net (if_none_match st) of
           ListingRejected \<Rightarrow> (Throw, [], st1)
         | ListingResponse status newEtag payload \<Rightarrow>
             if status = 304 then (Return (cachedRules st1), [], st1)
             else if \<not> ok status then (Throw, [], st1)
             else (let st2 = store_etag newEtag st1
                   in case payload of
                        None \<Rightarrow> (Throw, [], st2)
                      | Some files \<Rightarrow>
                          (let (rules, st3) = fetch_contents net (mdFiles files) [] st2
                           in (Normal, rules, st3))))"

definition fetchRulesFromGitHub :: "network \<Rightarrow> state \<Rightarrow> (jsstring \<times> Rule) list \<times> state" where
  \<comment> \<open>After the \<^verbatim>\<open>try\<close>: a returned value is the result; a thrown error is caught, and
      the cache is the result when it has a key; otherwise the result is \<^verbatim>\<open>rules\<close>.\<close>
  "fetchRulesFromGitHub net st =
     (case try_block net st of
        (Return r, rules, st') \<Rightarrow> (r, st')
      | (Throw, rules, st') \<Rightarrow>
          if length (map fst (cachedRules st')) > 0 then (cachedRules st', st')
          else (rules, st')
      | (Normal, rules, st') \<Rightarrow> (rules, st'))"

definition getRules :: "network \<Rightarrow> state \<Rightarrow> (jsstring \<times> Rule) list \<times> state" where
  "getRules net st =
     (let (rules, st') = fetchRulesFromGitHub net st
      in (rules, st'\<lparr>cachedRules := rules\<rparr>))"

definition poll :: "network \<Rightarrow> state \<Rightarrow> state" where
  \<comment> \<open>One run of the callback of \<^verbatim>\<open>setInterval\<close>, taken alone. The comparison of the
      old and the new keys and blob identifiers only chooses what is logged; then the
      cache is assigned. Nothing the callback throws leaves it.\<close>
  "poll net st =
     (let (newRules, st') = fetchRulesFromGitHub net st
      in st'\<lparr>cachedRules := newRules\<rparr>)"

subsection \<open>The request handlers\<close>

record resource =
  uri :: jsstring
  mimeType :: jsstring
  name :: jsstring
  description :: jsstring

record resource_contents =
  contents_uri :: jsstring
  contents_mimeType :: jsstring
  contents_text :: "jsstring option"

datatype exn = TypeError_Invalid_URL | Error jsstring

definition to_resource :: "jsstring \<times> ('a LocalRule_scheme) \<Rightarrow> resource" where
  "to_resource entry =
     (case entry of (fname, rule) \<Rightarrow>
        \<lparr>uri = js ''rule:///'' @ fname, mimeType = js ''text/markdown'', name = title rule,
         description = js ''Roo rule: '' @ title rule @ js '' ('' @ fname @ js '')''\<rparr>)"

definition ListResources :: "network \<Rightarrow> state \<Rightarrow> resource list \<times> state" where
  "ListResources net st =
     (let (rules, st') = getRules net st in (map to_resource rules, st'))"

definition strip_slash :: "jsstring \<Rightarrow> jsstring" where
  \<comment> \<open>\<^verbatim>\<open>pathname.replace(/^\//, '')\<close>\<close>
  "strip_slash p = (case p of [] \<Rightarrow> [] | c # cs \<Rightarrow> if c = 0x2F then cs else c # cs)"

definition respond ::
  "jsstring \<Rightarrow> jsstring \<Rightarrow> (jsstring \<times> ('a LocalRule_scheme)) list \<Rightarrow> exn + resource_contents list" where
  \<comment> \<open>The end of both read handlers, from the lookup on. An inherited property passes
      the test \<^verbatim>\<open>!rule\<close> and its \<^verbatim>\<open>content\<close> is \<^verbatim>\<open>undefined\<close>.\<close>
  "respond request_uri fname rules =
     (case get_property rules fname of
        Undefined \<Rightarrow> Inl (Error (js ''Rule '' @ fname @ js '' not found''))
      | Own rule \<Rightarrow>
          Inr [\<lparr>contents_uri = request_uri, contents_mimeType = js ''text/markdown'',
                contents_text = Some (content rule)\<rparr>]
      | Inherited \<Rightarrow>
          Inr [\<lparr>contents_uri = request_uri, contents_mimeType = js ''text/markdown'',
                contents_text = None\<rparr>])"

text \<open>
  \<^verbatim>\<open>new URL(uri)\<close> is the platform's: the handlers take it as the parameter
  \<open>new_URL\<close>, which gives the \<^verbatim>\<open>pathname\<close> of the parsed URL, or None when the
  constructor throws its \<^verbatim>\<open>TypeError\<close>. The constructor runs before
  \<^verbatim>\<open>getRules\<close> is called.
\<close>

definition ReadResource ::
  "(jsstring \<Rightarrow> jsstring option) \<Rightarrow> network \<Rightarrow> state \<Rightarrow> jsstring
     \<Rightarrow> (exn + resource_contents list) \<times> state" where
  "ReadResource new_URL net st request_uri =
     (case new_URL request_uri of
        None \<Rightarrow> (Inl TypeError_Invalid_URL, st)
      | Some pathname \<Rightarrow>
          (let (rules, st') = getRules net st
           in (respond request_uri (strip_slash pathname) rules, st')))"

section \<open>The polling timer\<close>

text \<open>
  \<^verbatim>\<open>setInterval\<close> calls its callback once every \<^verbatim>\<open>POLL_INTERVAL\<close> milliseconds. The
  callback is an async function: a call runs until it awaits a promise of the network,
  and goes on when that promise has settled, while the timer and the other promises go
  their way. What a promise of the network settles to: it rejects, a \<^verbatim>\<open>fetch\<close>
  resolves to a response with a status and an ETag header, \<^verbatim>\<open>response.json()\<close>
  resolves to the listing, \<^verbatim>\<open>text()\<close> resolves to the text. Only the runs of the
  timer's callback are in this model, not the requests of the handlers.
\<close>

datatype settled =
    Rejected
  | Response nat "jsstring option"
  | Json "github_file list"
  | Text jsstring

text \<open>
  A run of the callback that is suspended: at the \<^verbatim>\<open>fetch\<close> of the listing, at
  \<^verbatim>\<open>response.json()\<close>, at the \<^verbatim>\<open>fetch\<close> of a document (with the files that
  follow it and \<^verbatim>\<open>rules\<close> so far) or at the \<^verbatim>\<open>text()\<close> of that document.
\<close>

datatype cycle =
    AwaitListing
  | AwaitJson
  | AwaitContent github_file "github_file list" "(jsstring \<times> Rule) list"
  | AwaitText github_file "github_file list" "(jsstring \<times> Rule) list"

record world =
  globals :: state
  in_flight :: "cycle list"

text \<open>
  \<open>resume\<close> continues a suspended run with what its promise settled to, up to its next
  \<^verbatim>\<open>await\<close> of the network or to its end; None when the value is not one that this
  promise can settle to. The run ends by the assignment to \<^verbatim>\<open>cachedRules\<close> in the
  callback (\<open>complete\<close>), after a \<^verbatim>\<open>return\<close> or after the outer \<^verbatim>\<open>catch\<close>
  (\<open>caught\<close>, where \<^verbatim>\<open>rules\<close> is still empty). \<open>Rejected\<close> at
  \<^verbatim>\<open>response.json()\<close> also stands for a parsed value that the \<^verbatim>\<open>filter\<close> callback
  cannot process.
\<close>

definition complete :: "(jsstring \<times> Rule) list \<Rightarrow> state \<Rightarrow> state \<times> cycle option" where
  "complete newRules g = (g\<lparr>cachedRules := newRules\<rparr>, None)"

definition caught :: "state \<Rightarrow> state \<times> cycle option" where
  "caught g = complete (if length (map fst (cachedRules g)) > 0 then cachedRules g else []) g"

fun next_file ::
  "github_file list \<Rightarrow> (jsstring \<times> Rule) list \<Rightarrow> state \<Rightarrow> state \<times> cycle option" where
  "next_file [] rules g = complete rules g"
| "next_file (file # files) rules g =
     (perform (HttpGet (gh_download_url file) None) g, Some (AwaitContent file files rules))"

fun resume :: "cycle \<Rightarrow> settled \<Rightarrow> state \<Rightarrow> (state \<times> cycle option) option" where
  "resume AwaitListing Rejected g = Some (caught g)"
| "resume AwaitListing (Response status newEtag) g =
     Some (if status = 304 then complete (cachedRules g) g
           else if \<not> ok status then caught g
           else (store_etag newEtag g, Some AwaitJson))"
| "resume AwaitJson Rejected g = Some (caught g)"
| "resume AwaitJson (Json files) g = Some (next_file (mdFiles files) [] g)"
| "resume (AwaitContent file files rules) Rejected g = Some (next_file files rules g)"
| "resume (AwaitContent file files rules) (Response status newEtag) g =
     Some (if \<not> ok status then next_file files rules g
           else (g, Some (AwaitText file files rules)))"
| "resume (AwaitText file files rules) Rejected g = Some (next_file files rules g)"
| "resume (AwaitText file files rules) (Text b) g =
     Some (next_file files (AList.update (gh_name file) (mkRule file b) rules) g)"
| "resume _ _ g = None"

text \<open>
  What happens next is an event: the timer fires (\<open>Tick\<close>), or the promise that the
  \<open>i\<close>-th run in flight awaits settles. A tick starts a run, which sends the listing
  request with the ETag stored at that moment and is suspended; the source asks
  nothing about the runs in flight before it does so.
\<close>

datatype event = Tick | Settle nat settled

definition tick :: "world \<Rightarrow> world" where
  "tick w =
     \<lparr>globals = perform (HttpGet apiUrl (if_none_match (globals w))) (globals w),
      in_flight = in_flight w @ [AwaitListing]\<rparr>"

definition settle :: "nat \<Rightarrow> settled \<Rightarrow> world \<Rightarrow> world option" where
  "settle i s w =
     (if i < length (in_flight w)
      then (case resume (in_flight w ! i) s (globals w) of
              None \<Rightarrow> None
            | Some (g, None) \<Rightarrow>
                Some \<lparr>globals = g, in_flight = take i (in_flight w) @ drop (Suc i) (in_flight w)\<rparr>
            | Some (g, Some c) \<Rightarrow> Some \<lparr>globals = g, in_flight = (in_flight w)[i := c]\<rparr>)
      else None)"

fun step :: "event \<Rightarrow> world \<Rightarrow> world option" where
  "step Tick w = Some (tick w)"
| "step (Settle i s) w = settle i s w"

fun run :: "event list \<Rightarrow> world \<Rightarrow> world option" where
  "run [] w = Some w"
| "run (ev # evs) w = (case step ev w of None \<Rightarrow> None | Some w' \<Rightarrow> run evs w')"

text \<open>
  The events of one run that no other run overlaps, when the network answers as
  \<open>net\<close> does.
\<close>

fun content_events :: "network \<Rightarrow> github_file list \<Rightarrow> event list" where
  "content_events net [] = []"
| "content_events net (file # files) =
     (case download net (gh_download_url file) of
        ContentRejected \<Rightarrow> [Settle 0 Rejected]
      | ContentResponse status body \<Rightarrow>
          Settle 0 (Response status None) #
          (if ok status
           then [Settle 0 (case body of None \<Rightarrow> Rejected | Some b \<Rightarrow> Text b)]
           else []))
     @ content_events net files"

definition cycle_events :: "network \<Rightarrow> state \<Rightarrow> event list" where
  "cycle_events net st =
     Tick #
     (case listing net (if_none_match st) of
        ListingRejected \<Rightarrow> [Settle 0 Rejected]
      | ListingResponse status newEtag payload \<Rightarrow>
          Settle 0 (Response status newEtag) #
          (if status \<noteq> 304 \<and> ok status
           then (case payload of
                   None \<Rightarrow> [Settle 0 Rejected]
                 | Some files \<Rightarrow> Settle 0 (Json files) # content_events net (mdFiles files))
           else []))"

definition observe :: "world \<Rightarrow> jsstring list \<times> jsstring option \<times> nat" where
  \<comment> \<open>The keys of the cache, the stored ETag and the number of runs in flight.\<close>
  "observe w = (map fst (cachedRules (globals w)), lastEtag (globals w), length (in_flight w))"

definition after :: "state \<times> cycle option \<Rightarrow> world" where
  \<comment> \<open>The world of a single run after it has been resumed.\<close>
  "after r = (case r of (g, None) \<Rightarrow> \<lparr>globals = g, in_flight = []\<rparr>
                      | (g, Some c) \<Rightarrow> \<lparr>globals = g, in_flight = [c]\<rparr>)"

section \<open>The local-directory server\<close>

text \<open>
  The directory \<^verbatim>\<open>RULES_DIR\<close> as one request sees it: whether it exists, what
  \<^verbatim>\<open>readdirSync\<close> gives (None when it throws), and what \<^verbatim>\<open>readFileSync\<close> gives
  for the file of a name in it (None when it throws). The globals are the cache and the
  time of the last load; \<^verbatim>\<open>Date.now()\<close> is the parameter \<open>now\<close>.
\<close>

record filesystem =
  existsSync :: bool
  readdirSync :: "jsstring list option"
  readFileSync :: "jsstring \<Rightarrow> jsstring option"

record local_state =
  cachedRules_local :: "(jsstring \<times> LocalRule) list"
  lastLoadTime :: nat

fun load_files ::
  "filesystem \<Rightarrow> jsstring list \<Rightarrow> (jsstring \<times> LocalRule) list \<Rightarrow> (jsstring \<times> LocalRule) list" where
  \<comment> \<open>The loop over \<^verbatim>\<open>mdFiles\<close>: a file that cannot be read is logged and skipped.
      The title starts as \<^verbatim>\<open>filename.replace('.md', '')\<close> and is replaced by the first
      heading.\<close>
  "load_files fs [] rules = rules"
| "load_files fs (fname # fnames) rules =
     (case readFileSync fs fname of
        None \<Rightarrow> load_files fs fnames rules
      | Some body \<Rightarrow>
          load_files fs fnames
            (AList.update fname
               \<lparr>filename = fname,
                title = (case first_heading (split_nl body) of
                           Some m \<Rightarrow> trim m
                         | None \<Rightarrow> replace_first (js ''.md'') [] fname),
                content = body\<rparr> rules))"

definition loadRules :: "filesystem \<Rightarrow> (jsstring \<times> LocalRule) list" where
  \<comment> \<open>A missing directory returns the empty \<^verbatim>\<open>rules\<close>; so does a \<^verbatim>\<open>readdirSync\<close>
      that throws, through the outer \<^verbatim>\<open>catch\<close>.\<close>
  "loadRules fs =
     (if \<not> existsSync fs then []
      else (case readdirSync fs of
              None \<Rightarrow> []
            | Some files \<Rightarrow> load_files fs (filter (\<lambda>file. endsWith file (js ''.md'')) files) []))"

definition getRules_local ::
  "filesystem \<Rightarrow> nat \<Rightarrow> local_state \<Rightarrow> (jsstring \<times> LocalRule) list \<times> local_state" where
  "getRules_local fs now st =
     (let st' = st\<lparr>cachedRules_local := loadRules fs\<rparr>;
          st'' = st'\<lparr>lastLoadTime := now\<rparr>
      in (cachedRules_local st'', st''))"

definition ListResources_local ::
  "filesystem \<Rightarrow> nat \<Rightarrow> local_state \<Rightarrow> resource list \<times> local_state" where
  "ListResources_local fs now st =
     (let (rules, st') = getRules_local fs now st in (map to_resource rules, st'))"

definition ReadResource_local ::
  "(jsstring \<Rightarrow> jsstring option) \<Rightarrow> filesystem \<Rightarrow> nat \<Rightarrow> local_state \<Rightarrow> jsstring
     \<Rightarrow> (exn + resource_contents list) \<times> local_state" where
  "ReadResource_local new_URL fs now st request_uri =
     (case new_URL request_uri of
        None \<Rightarrow> (Inl TypeError_Invalid_URL, st)
      | Some pathname \<Rightarrow>
          (let (rules, st') = getRules_local fs now st
           in (respond request_uri (strip_slash pathname) rules, st')))"

section \<open>A URL parser for the examples\<close>

text \<open>
  The closed examples below need a value for \<open>new_URL\<close>. \<open>URL_pathname\<close> follows the
  platform's parser (run without a base URL) as far as the examples need it. The input
  loses its leading and trailing code units up to U+0020 and all its tabs and line
  breaks; it must then start with a scheme, a letter followed by letters, digits,
  \<^verbatim>\<open>+\<close>, \<^verbatim>\<open>-\<close> or \<^verbatim>\<open>.\<close> and ended by a colon, or the constructor throws. After
  the scheme, \<^verbatim>\<open>//\<close> opens an authority that runs up to the next \<^verbatim>\<open>/\<close>,
  \<^verbatim>\<open>?\<close> or \<^verbatim>\<open>#\<close>, and the path runs up to the first \<^verbatim>\<open>?\<close> or \<^verbatim>\<open>#\<close>.
  Where it gives None the constructor throws. Where it gives a path, it is the
  constructor's \<^verbatim>\<open>pathname\<close> for a scheme that is not one of the special ones
  (\<^verbatim>\<open>http\<close>, \<^verbatim>\<open>https\<close>, \<^verbatim>\<open>ws\<close>, \<^verbatim>\<open>wss\<close>, \<^verbatim>\<open>ftp\<close>, \<^verbatim>\<open>file\<close>), an empty
  authority and a path of letters, digits, \<^verbatim>\<open>-\<close>, \<^verbatim>\<open>_\<close>, \<^verbatim>\<open>/\<close> and \<^verbatim>\<open>.\<close> with no
  segment \<^verbatim>\<open>.\<close> or \<^verbatim>\<open>..\<close>: no percent-encoding, host or port comes into play there.
  No theorem about every \<open>new_URL\<close> depends on it.
\<close>

definition isAlpha :: "16 word \<Rightarrow> bool" where
  "isAlpha c \<longleftrightarrow> (0x41 \<le> c \<and> c \<le> 0x5A) \<or> (0x61 \<le> c \<and> c \<le> 0x7A)"

definition isSchemeChar :: "16 word \<Rightarrow> bool" where
  "isSchemeChar c \<longleftrightarrow> isAlpha c \<or> (0x30 \<le> c \<and> c \<le> 0x39) \<or> c = 0x2B \<or> c = 0x2D \<or> c = 0x2E"

definition isC0OrSpace :: "16 word \<Rightarrow> bool" where
  "isC0OrSpace c \<longleftrightarrow> c \<le> 0x20"

definition isTabOrNewline :: "16 word \<Rightarrow> bool" where
  "isTabOrNewline c \<longleftrightarrow> c = 0x09 \<or> c = 0x0A \<or> c = 0x0D"

definition isPathEnd :: "16 word \<Rightarrow> bool" where
  "isPathEnd c \<longleftrightarrow> c = 0x3F \<or> c = 0x23"

definition after_scheme :: "jsstring \<Rightarrow> jsstring" where
  "after_scheme r =
     (let p = (if prefix (js ''//'') r
               then dropWhile (\<lambda>c. \<not> (c = 0x2F \<or> isPathEnd c)) (drop 2 r)
               else r)
      in takeWhile (\<lambda>c. \<not> isPathEnd c) p)"

definition URL_pathname :: "jsstring \<Rightarrow> jsstring option" where
  "URL_pathname u =
     (let v = filter (\<lambda>c. \<not> isTabOrNewline c)
                (rev (dropWhile isC0OrSpace (rev (dropWhile isC0OrSpace u))))
      in case v of
           [] \<Rightarrow> None
         | c # cs \<Rightarrow>
             if \<not> isAlpha c then None
             else (case dropWhile isSchemeChar cs of
                     [] \<Rightarrow> None
                   | d # r \<Rightarrow> if d = 0x3A then Some (after_scheme r) else None))"

section \<open>Notions used to state the properties\<close>

definition listing_failed :: "listing_response \<Rightarrow> bool" where
  \<comment> \<open>The listing request fails entirely: a network error, or a status that is neither
      304 nor one of the 2xx.\<close>
  "listing_failed r =
     (case r of
        ListingRejected \<Rightarrow> True
      | ListingResponse status newEtag payload \<Rightarrow> status \<noteq> 304 \<and> \<not> ok status)"

definition fetched :: "network \<Rightarrow> github_file \<Rightarrow> jsstring option" where
  \<comment> \<open>The body that the loop gets for a listed file; None when its fetch fails.\<close>
  "fetched net file =
     (case download net (gh_download_url file) of
        ContentRejected \<Rightarrow> None
      | ContentResponse status body \<Rightarrow> if ok status then body else None)"

definition mkLocalRule :: "jsstring \<Rightarrow> jsstring \<Rightarrow> LocalRule" where
  \<comment> \<open>The record the local server builds, with the title written as \<open>extractTitle\<close>.\<close>
  "mkLocalRule fname body =
     \<lparr>filename = fname, title = extractTitle body fname, content = body\<rparr>"

text \<open>
  A document as its lines, apart from the code: the text of a list of lines is the
  lines with a line feed between each two, a line has no line feed in it, and a line
  is a heading when it is \<^verbatim>\<open>#\<close>, then one or more code units of white space, then one
  or more code units up to the end of the line, none of them a line terminator.
\<close>

fun join_lines :: "jsstring list \<Rightarrow> jsstring" where
  "join_lines [] = []"
| "join_lines [l] = l"
| "join_lines (l # k # ls) = l @ [0x0A] @ join_lines (k # ls)"

definition no_lf :: "jsstring \<Rightarrow> bool" where
  "no_lf l \<longleftrightarrow> filter (\<lambda>c. c = 0x0A) l = []"

definition is_heading :: "jsstring \<Rightarrow> bool" where
  "is_heading l =
     (case l of
        [] \<Rightarrow> False
      | h # r \<Rightarrow>
          h = 0x23 \<and>
          list_ex (\<lambda>k. list_all isSpace (take k r) \<and> filter isLineTerminator (drop k r) = [])
            [1 ..< length r])"

definition greedy :: "jsstring \<Rightarrow> bool" where
  \<comment> \<open>What makes a group 1 the one that the greedy \<^verbatim>\<open>\s+\<close> leaves: it does not start
      with a code unit that \<^verbatim>\<open>\s+\<close> could have taken as well, that is with white space
      followed by more.\<close>
  "greedy m = (case m of c # d # ds \<Rightarrow> \<not> isSpace c | _ \<Rightarrow> True)"

definition name_without_md_extension :: "jsstring \<Rightarrow> jsstring" where
  \<comment> \<open>Follows the specification's words, not the source: the document name with its
      markdown extension removed.\<close>
  "name_without_md_extension fname =
     (if endsWith fname (js ''.md'') then take (length fname - 3) fname else fname)"

section \<open>Example data\<close>

definition rule_a :: Rule where
  "rule_a = \<lparr>filename = js ''a.md'', title = js ''A'', content = js ''# A'', sha = js ''s1''\<rparr>"

definition st_cached :: state where
  "st_cached = \<lparr>cachedRules = [(js ''a.md'', rule_a)], lastEtag = Some (js ''E1''), effects = []\<rparr>"

definition net_not_modified :: network where
  "net_not_modified =
     \<lparr>listing = (\<lambda>h. ListingResponse 304 None None), download = (\<lambda>u. ContentRejected)\<rparr>"

definition net_down :: network where
  "net_down = \<lparr>listing = (\<lambda>h. ListingRejected), download = (\<lambda>u. ContentRejected)\<rparr>"

definition st_initial :: state where
  \<comment> \<open>The globals as the module initialises them.\<close>
  "st_initial = \<lparr>cachedRules = [], lastEtag = None, effects = []\<rparr>"

definition net_server_error :: network where
  "net_server_error =
     \<lparr>listing = (\<lambda>h. ListingResponse 500 None None), download = (\<lambda>u. ContentRejected)\<rparr>"

definition file_a :: github_file where
  "file_a = \<lparr>gh_name = js ''a.md'', gh_sha = js ''s1'', gh_download_url = js ''https://raw/a.md'',
             gh_type = js ''file''\<rparr>"

definition file_b :: github_file where
  "file_b = \<lparr>gh_name = js ''b.md'', gh_sha = js ''s2'', gh_download_url = js ''https://raw/b.md'',
             gh_type = js ''file''\<rparr>"

definition file_c :: github_file where
  "file_c = \<lparr>gh_name = js ''c.md'', gh_sha = js ''s3'', gh_download_url = js ''https://raw/c.md'',
             gh_type = js ''file''\<rparr>"

definition net_changed :: network where
  \<comment> \<open>Three documents are listed under a new ETag; the download of \<^verbatim>\<open>b.md\<close> fails.\<close>
  "net_changed =
     \<lparr>listing = (\<lambda>h. ListingResponse 200 (Some (js ''E2'')) (Some [file_a, file_b, file_c])),
      download = (\<lambda>u. if u = js ''https://raw/a.md'' then ContentResponse 200 (Some (js ''# A''))
                       else if u = js ''https://raw/c.md''
                            then ContentResponse 200 (Some (js ''no heading''))
                       else ContentResponse 404 (Some (js ''Not Found'')))\<rparr>"

definition fs_three :: filesystem where
  \<comment> \<open>Three documents and another file; \<^verbatim>\<open>b.md\<close> cannot be read.\<close>
  "fs_three =
     \<lparr>existsSync = True,
      readdirSync = Some [js ''a.md'', js ''b.md'', js ''c.md'', js ''notes.txt''],
      readFileSync = (\<lambda>n. if n = js ''a.md'' then Some (js ''# A'')
                           else if n = js ''c.md'' then Some (js ''no heading'')
                           else None)\<rparr>"

definition fs_deleted :: filesystem where
  \<comment> \<open>The same directory after \<^verbatim>\<open>a.md\<close> has been deleted.\<close>
  "fs_deleted =
     \<lparr>existsSync = True,
      readdirSync = Some [js ''b.md'', js ''c.md'', js ''notes.txt''],
      readFileSync = (\<lambda>n. if n = js ''c.md'' then Some (js ''no heading'') else None)\<rparr>"

definition st_loaded :: local_state where
  "st_loaded = \<lparr>cachedRules_local = loadRules fs_three, lastLoadTime = 1\<rparr>"

definition w_cached :: world where
  "w_cached = \<lparr>globals = st_cached, in_flight = []\<rparr>"

definition overlapping_events :: "event list" where
  \<comment> \<open>Two ticks. The first run gets the older listing, with \<^verbatim>\<open>a.md\<close> only; the second
      gets the newer one and ends first; then the first run gets its documents.\<close>
  "overlapping_events =
     [Tick, Tick,
      Settle 0 (Response 200 (Some (js ''E1b''))),
      Settle 1 (Response 200 (Some (js ''E2''))),
      Settle 1 (Json [file_a, file_c]),
      Settle 1 (Response 200 None), Settle 1 (Text (js ''# A'')),
      Settle 1 (Response 200 None), Settle 1 (Text (js ''no heading'')),
      Settle 0 (Json [file_a]),
      Settle 0 (Response 200 None), Settle 0 (Text (js ''# A''))]"

section \<open>Lemmas about the refresh cycle\<close>

lemma perform_simps [simp]:
  "cachedRules (perform e st) = cachedRules st"
  "lastEtag (perform e st) = lastEtag st"
  "effects (perform e st) = effects st @ [e]"
  by (simp_all add: perform_def)

lemma set_cachedRules_same: "cachedRules st = r \<Longrightarrow> st\<lparr>cachedRules := r\<rparr> = st"
  by (cases st) simp

lemma fetch_contents_Cons:
  "fetch_contents net (file # files) rules st =
     fetch_contents net files
       (case fetched net file of None \<Rightarrow> rules
        | Some b \<Rightarrow> AList.update (gh_name file) (mkRule file b) rules)
       (perform (HttpGet (gh_download_url file) None) st)"
  by (simp add: fetched_def Let_def split: content_response.splits option.splits)

lemma fetch_contents_frame:
  "cachedRules (snd (fetch_contents net files rules st)) = cachedRules st \<and>
   lastEtag (snd (fetch_contents net files rules st)) = lastEtag st"
  by (induction files arbitrary: rules st) (simp_all only: fetch_contents_Cons, simp_all)

lemma fetch_contents_effects:
  "effects (snd (fetch_contents net files rules st)) =
     effects st @ map (\<lambda>file. HttpGet (gh_download_url file) None) files"
  by (induction files arbitrary: rules st) (simp_all only: fetch_contents_Cons, simp_all)

lemma fetch_contents_absent:
  "\<forall>g \<in> set files. gh_name g = k \<longrightarrow> fetched net g = None \<Longrightarrow>
   map_of (fst (fetch_contents net files rules st)) k = map_of rules k"
proof (induction files arbitrary: rules st)
  case Nil
  then show ?case by simp
next
  case (Cons g gs)
  from Cons.prems have r: "\<forall>g \<in> set gs. gh_name g = k \<longrightarrow> fetched net g = None"
    and h: "gh_name g = k \<longrightarrow> fetched net g = None" by simp_all
  from h show ?case
    by (simp only: fetch_contents_Cons Cons.IH [OF r])
       (auto simp add: update_conv' split: option.splits)
qed

lemma fetch_contents_present:
  "f \<in> set files \<Longrightarrow> \<forall>g \<in> set files. gh_name g = gh_name f \<longrightarrow> g = f \<Longrightarrow>
   fetched net f = Some b \<Longrightarrow>
   map_of (fst (fetch_contents net files rules st)) (gh_name f) = Some (mkRule f b)"
proof (induction files arbitrary: rules st)
  case Nil
  then show ?case by simp
next
  case (Cons g gs)
  from Cons.prems(2) have u: "\<forall>g \<in> set gs. gh_name g = gh_name f \<longrightarrow> g = f" by simp
  show ?case
  proof (cases "f \<in> set gs")
    case True
    from Cons.IH [OF True u Cons.prems(3)] show ?thesis
      by (simp only: fetch_contents_Cons)
  next
    case False
    with Cons.prems(1) have g: "g = f" by simp
    from False u have "\<forall>g \<in> set gs. gh_name g = gh_name f \<longrightarrow> fetched net g = None" by blast
    from fetch_contents_absent [OF this] g Cons.prems(3) show ?thesis
      by (simp only: fetch_contents_Cons) (simp add: update_conv')
  qed
qed

lemma try_block_not_modified:
  assumes "listing net (if_none_match st) = ListingResponse 304 newEtag payload"
  shows "try_block net st =
           (Return (cachedRules st), [], perform (HttpGet apiUrl (if_none_match st)) st)"
  using assms by (simp add: try_block_def Let_def)

lemma fetchRulesFromGitHub_not_modified:
  assumes "listing net (if_none_match st) = ListingResponse 304 newEtag payload"
  shows "fetchRulesFromGitHub net st =
           (cachedRules st, perform (HttpGet apiUrl (if_none_match st)) st)"
  by (simp add: fetchRulesFromGitHub_def try_block_not_modified [OF assms])

lemma try_block_listing_failed:
  assumes "listing_failed (listing net (if_none_match st))"
  shows "try_block net st = (Throw, [], perform (HttpGet apiUrl (if_none_match st)) st)"
  using assms
  by (auto simp add: try_block_def listing_failed_def Let_def split: listing_response.splits)

lemma if_none_match_st_cached: "if_none_match st_cached = Some (js ''E1'')"
  by (simp add: if_none_match_def st_cached_def truthy_def js_def)

lemma ok_not_304: "ok status \<Longrightarrow> status \<noteq> 304"
  by (auto simp: ok_def)

lemma ok_200: "ok 200"
  by (simp add: ok_def)

lemma try_block_listed:
  assumes "listing net (if_none_match st) = ListingResponse status newEtag (Some files)"
    and "ok status"
  shows "try_block net st =
           (Normal,
            fetch_contents net (mdFiles files) []
              (store_etag newEtag (perform (HttpGet apiUrl (if_none_match st)) st)))"
  using assms ok_not_304 [OF assms(2)]
  by (simp add: try_block_def Let_def split: prod.splits)

lemma fetchRulesFromGitHub_listed:
  assumes "listing net (if_none_match st) = ListingResponse status newEtag (Some files)"
    and "ok status"
  shows "fetchRulesFromGitHub net st =
           fetch_contents net (mdFiles files) []
             (store_etag newEtag (perform (HttpGet apiUrl (if_none_match st)) st))"
  by (simp add: fetchRulesFromGitHub_def try_block_listed [OF assms] split: prod.splits)

lemma fetchRulesFromGitHub_unparsed:
  assumes "listing net (if_none_match st) = ListingResponse status newEtag None"
    and "ok status"
  shows "snd (fetchRulesFromGitHub net st) =
           store_etag newEtag (perform (HttpGet apiUrl (if_none_match st)) st)"
  using assms ok_not_304 [OF assms(2)]
  by (simp add: fetchRulesFromGitHub_def try_block_def Let_def)

lemma cachedRules_poll: "cachedRules (poll net st) = fst (fetchRulesFromGitHub net st)"
  by (simp add: poll_def split: prod.splits)

lemma lastEtag_poll: "lastEtag (poll net st) = lastEtag (snd (fetchRulesFromGitHub net st))"
  by (simp add: poll_def split: prod.splits)

lemma effects_poll: "effects (poll net st) = effects (snd (fetchRulesFromGitHub net st))"
  by (simp add: poll_def split: prod.splits)

lemma cachedRules_getRules:
  "cachedRules (snd (getRules net st)) = fst (fetchRulesFromGitHub net st)"
  by (simp add: getRules_def split: prod.splits)

lemma fst_getRules: "fst (getRules net st) = fst (fetchRulesFromGitHub net st)"
  by (simp add: getRules_def split: prod.splits)

lemma if_none_match_stored:
  "e \<noteq> [] \<Longrightarrow> lastEtag st = Some e \<Longrightarrow> if_none_match st = Some e"
  by (simp add: if_none_match_def truthy_def)

lemma store_etag_Some:
  "e \<noteq> [] \<Longrightarrow> store_etag (Some e) st = perform (StoreEtag e) (st\<lparr>lastEtag := Some e\<rparr>)"
  by (simp add: store_etag_def)

lemma effects_store_etag: "prefix (effects st) (effects (store_etag newEtag st))"
  by (simp add: store_etag_def split: option.splits)

lemma fetchRulesFromGitHub_contacts:
  "prefix (effects st @ [HttpGet apiUrl (if_none_match st)])
     (effects (snd (fetchRulesFromGitHub net st)))"
proof -
  let ?st1 = "perform (HttpGet apiUrl (if_none_match st)) st"
  have a: "prefix (effects ?st1) (effects (store_etag newEtag ?st1))" for newEtag
    by (rule effects_store_etag)
  have b: "prefix (effects ?st1)
             (effects (snd (fetch_contents net files [] (store_etag newEtag ?st1))))"
    for newEtag files
    using a [of newEtag]
    by (simp only: fetch_contents_effects) (metis prefix_order.trans prefixI)
  show ?thesis
    using a b
    by (simp add: fetchRulesFromGitHub_def try_block_def Let_def
             split: listing_response.splits option.splits prod.splits)
qed

lemma listing_net_changed:
  "listing net_changed h = ListingResponse 200 (Some (js ''E2'')) (Some [file_a, file_b, file_c])"
  by (simp add: net_changed_def)

section \<open>Lemmas about the local load\<close>

lemma load_files_Cons:
  "load_files fs (n # ns) rules =
     load_files fs ns
       (case readFileSync fs n of None \<Rightarrow> rules
        | Some b \<Rightarrow> AList.update n (mkLocalRule n b) rules)"
  by (simp add: mkLocalRule_def extractTitle_def split: option.splits)

lemma load_files_map_of:
  "map_of (load_files fs ns rules) k =
     (if k \<in> set ns
      then (case readFileSync fs k of None \<Rightarrow> map_of rules k | Some b \<Rightarrow> Some (mkLocalRule k b))
      else map_of rules k)"
proof (induction ns arbitrary: rules)
  case Nil
  then show ?case by simp
next
  case (Cons n ns)
  show ?case
    by (simp only: load_files_Cons Cons.IH)
       (auto simp add: update_conv' split: option.splits)
qed

lemma loadRules_map_of:
  assumes "existsSync fs" and "readdirSync fs = Some names"
  shows "map_of (loadRules fs) k =
           (if k \<in> set names \<and> endsWith k (js ''.md'')
            then map_option (mkLocalRule k) (readFileSync fs k) else None)"
  using assms
  by (simp add: loadRules_def load_files_map_of split: option.splits)

lemma loadRules_keys:
  "readdirSync fs = Some names \<Longrightarrow> fst ` set (loadRules fs) \<subseteq> set names"
proof -
  have k: "fst ` set (load_files fs ns rules) \<subseteq> set ns \<union> fst ` set rules" for ns rules
  proof (induction ns arbitrary: rules)
    case Nil
    then show ?case by simp
  next
    case (Cons n ns)
    show ?case
      using Cons.IH [of "case readFileSync fs n of None \<Rightarrow> rules
          | Some b \<Rightarrow> AList.update n (mkLocalRule n b) rules"]
      by (simp only: load_files_Cons) (auto simp: dom_update split: option.splits)
  qed
  assume "readdirSync fs = Some names"
  with k [of "filter (\<lambda>file. endsWith file (js ''.md'')) names" "[]"]
  show ?thesis by (auto simp: loadRules_def)
qed

lemma getRules_local_conv:
  "getRules_local fs now lst =
     (loadRules fs, \<lparr>cachedRules_local = loadRules fs, lastLoadTime = now\<rparr>)"
  by (cases lst) (simp add: getRules_local_def Let_def)

lemma ListResources_local_conv:
  "ListResources_local fs now lst =
     (map to_resource (loadRules fs), \<lparr>cachedRules_local = loadRules fs, lastLoadTime = now\<rparr>)"
  by (simp add: ListResources_local_def getRules_local_conv)

lemma ReadResource_local_conv:
  "new_URL u = Some p \<Longrightarrow>
   ReadResource_local new_URL fs now lst u =
     (respond u (strip_slash p) (loadRules fs),
      \<lparr>cachedRules_local = loadRules fs, lastLoadTime = now\<rparr>)"
  by (simp add: ReadResource_local_def getRules_local_conv)

section \<open>Lemmas about the request handlers\<close>

lemma getRules_not_modified:
  assumes "listing net (if_none_match st) = ListingResponse 304 newEtag payload"
  shows "getRules net st = (cachedRules st, perform (HttpGet apiUrl (if_none_match st)) st)"
  by (simp add: getRules_def fetchRulesFromGitHub_not_modified [OF assms] set_cachedRules_same)

lemma effects_getRules:
  "effects (snd (getRules net st)) = effects (snd (fetchRulesFromGitHub net st))"
  by (simp add: getRules_def split: prod.splits)

lemma ListResources_conv:
  "ListResources net st = (map to_resource (fst (getRules net st)), snd (getRules net st))"
  by (simp add: ListResources_def split: prod.splits)

lemma ReadResource_conv:
  "new_URL u = Some p \<Longrightarrow>
   ReadResource new_URL net st u =
     (respond u (strip_slash p) (fst (getRules net st)), snd (getRules net st))"
  by (simp add: ReadResource_def split: prod.splits)

lemma respond_absent:
  "map_of rules k = None \<Longrightarrow> k \<notin> set Object_prototype_keys \<Longrightarrow>
   respond u k rules = Inl (Error (js ''Rule '' @ k @ js '' not found''))"
  by (simp add: respond_def get_property_def)

lemma uri_to_resource: "uri (to_resource (k, r)) = js ''rule:///'' @ k"
  by (simp add: to_resource_def)

section \<open>Lemmas about the title\<close>

lemma trim_spaces:
  assumes "list_all isSpace m"
  shows "trim m = []"
proof -
  from assms have d: "dropWhile isSpace m = []"
    by (induction m) simp_all
  show ?thesis unfolding trim_def d by simp
qed

text \<open>
  The matcher against the pattern read as a description: a line matches, with group 1
  \<open>m\<close>, exactly when it is \<^verbatim>\<open>#\<close>, then one or more code units of \<^verbatim>\<open>\s\<close>, then
  \<open>m\<close>, where \<open>m\<close> is not empty, has no line terminator and is what the greedy
  \<^verbatim>\<open>\s+\<close> leaves.
\<close>

lemma dot_plus_iff: "dot_plus s = Some m \<longleftrightarrow> m = s \<and> s \<noteq> [] \<and> filter isLineTerminator s = []"
  by (auto simp: dot_plus_def)

lemma space_plus_total:
  "cs \<noteq> [] \<Longrightarrow> filter isLineTerminator cs = [] \<Longrightarrow> \<exists>m. space_plus cs = Some m"
  by (cases cs) (auto simp: dot_plus_def split: option.splits)

lemma space_plus_iff:
  "space_plus s = Some m \<longleftrightarrow>
     (\<exists>ws. s = ws @ m \<and> list_all isSpace ws \<and> m \<noteq> [] \<and> filter isLineTerminator m = [] \<and> greedy m)"
proof (induction s arbitrary: m)
  case Nil
  then show ?case by simp
next
  case (Cons c cs)
  show ?case
  proof (cases "isSpace c")
    case False
    then have "space_plus (c # cs) = Some m \<longleftrightarrow> dot_plus (c # cs) = Some m" by simp
    also have "\<dots> \<longleftrightarrow> m = c # cs \<and> filter isLineTerminator (c # cs) = []"
      by (auto simp: dot_plus_iff)
    also have "\<dots> \<longleftrightarrow> (\<exists>ws. c # cs = ws @ m \<and> list_all isSpace ws \<and> m \<noteq> [] \<and>
        filter isLineTerminator m = [] \<and> greedy m)"
    proof
      assume a: "m = c # cs \<and> filter isLineTerminator (c # cs) = []"
      with False have "greedy m" by (auto simp: greedy_def split: list.splits)
      with a show "\<exists>ws. c # cs = ws @ m \<and> list_all isSpace ws \<and> m \<noteq> [] \<and>
        filter isLineTerminator m = [] \<and> greedy m"
        by (intro exI [of _ "[]"]) simp
    next
      assume "\<exists>ws. c # cs = ws @ m \<and> list_all isSpace ws \<and> m \<noteq> [] \<and>
        filter isLineTerminator m = [] \<and> greedy m"
      then obtain ws where w: "c # cs = ws @ m" "list_all isSpace ws" "m \<noteq> []"
        "filter isLineTerminator m = []" by blast
      with False have "ws = []" by (cases ws) auto
      with w show "m = c # cs \<and> filter isLineTerminator (c # cs) = []" by simp
    qed
    finally show ?thesis .
  next
    case True
    show ?thesis
    proof (cases "space_plus cs")
      case (Some m')
      with True have l: "space_plus (c # cs) = Some m \<longleftrightarrow> m = m'" by auto
      from Some Cons.IH [of m'] obtain ws where w: "cs = ws @ m'" "list_all isSpace ws" "m' \<noteq> []"
        "filter isLineTerminator m' = []" "greedy m'" by blast
      show ?thesis
      proof
        assume "space_plus (c # cs) = Some m"
        with l w True show "\<exists>ws. c # cs = ws @ m \<and> list_all isSpace ws \<and> m \<noteq> [] \<and>
          filter isLineTerminator m = [] \<and> greedy m"
          by (intro exI [of _ "c # ws"]) simp
      next
        assume "\<exists>ws. c # cs = ws @ m \<and> list_all isSpace ws \<and> m \<noteq> [] \<and>
          filter isLineTerminator m = [] \<and> greedy m"
        then obtain vs where v: "c # cs = vs @ m" "list_all isSpace vs" "m \<noteq> []"
          "filter isLineTerminator m = []" "greedy m" by blast
        show "space_plus (c # cs) = Some m"
        proof (cases vs)
          case Nil
          with v have m: "m = c # cs" by simp
          from w(3) w(1) have "cs \<noteq> []" by simp
          with m True v(5) show ?thesis by (auto simp: greedy_def split: list.splits)
        next
          case (Cons d ds)
          with v have "cs = ds @ m" "list_all isSpace ds" by simp_all
          with v Cons.IH [of m] have "space_plus cs = Some m" by blast
          with Some l show ?thesis by simp
        qed
      qed
    next
      case None
      with True have "space_plus (c # cs) = Some m \<longleftrightarrow> dot_plus (c # cs) = Some m" by simp
      also have "\<dots> \<longleftrightarrow> m = c # cs \<and> filter isLineTerminator (c # cs) = []"
        by (auto simp: dot_plus_iff)
      also have "\<dots> \<longleftrightarrow> (\<exists>ws. c # cs = ws @ m \<and> list_all isSpace ws \<and> m \<noteq> [] \<and>
          filter isLineTerminator m = [] \<and> greedy m)"
      proof
        assume a: "m = c # cs \<and> filter isLineTerminator (c # cs) = []"
        have "cs = []"
        proof (rule ccontr)
          assume "cs \<noteq> []"
          with a space_plus_total [of cs] None show False by (auto split: if_splits)
        qed
        with a show "\<exists>ws. c # cs = ws @ m \<and> list_all isSpace ws \<and> m \<noteq> [] \<and>
          filter isLineTerminator m = [] \<and> greedy m"
          by (intro exI [of _ "[]"]) (simp add: greedy_def)
      next
        assume "\<exists>ws. c # cs = ws @ m \<and> list_all isSpace ws \<and> m \<noteq> [] \<and>
          filter isLineTerminator m = [] \<and> greedy m"
        then obtain vs where v: "c # cs = vs @ m" "list_all isSpace vs" "m \<noteq> []"
          "filter isLineTerminator m = []" "greedy m" by blast
        show "m = c # cs \<and> filter isLineTerminator (c # cs) = []"
        proof (cases vs)
          case Nil
          with v show ?thesis by simp
        next
          case (Cons d ds)
          with v have "cs = ds @ m" "list_all isSpace ds" by simp_all
          with v Cons.IH [of m] have "space_plus cs = Some m" by blast
          with None show ?thesis by simp
        qed
      qed
      finally show ?thesis .
    qed
  qed
qed


lemma heading_match_iff:
  "heading_match l = Some m \<longleftrightarrow>
     (\<exists>ws. l = 0x23 # ws @ m \<and> ws \<noteq> [] \<and> list_all isSpace ws \<and> m \<noteq> [] \<and>
           filter isLineTerminator m = [] \<and> greedy m)"
proof
  assume h: "heading_match l = Some m"
  then obtain c cs where l: "l = 0x23 # c # cs" "isSpace c" "space_plus cs = Some m"
    by (cases l rule: heading_match.cases) (auto split: if_splits)
  from l(3) obtain ws where "cs = ws @ m" "list_all isSpace ws" "m \<noteq> []"
    "filter isLineTerminator m = []" "greedy m"
    by (auto simp: space_plus_iff)
  with l show "\<exists>ws. l = 0x23 # ws @ m \<and> ws \<noteq> [] \<and> list_all isSpace ws \<and> m \<noteq> [] \<and>
           filter isLineTerminator m = [] \<and> greedy m"
    by (intro exI [of _ "c # ws"]) simp
next
  assume "\<exists>ws. l = 0x23 # ws @ m \<and> ws \<noteq> [] \<and> list_all isSpace ws \<and> m \<noteq> [] \<and>
           filter isLineTerminator m = [] \<and> greedy m"
  then obtain ws where w: "l = 0x23 # ws @ m" "ws \<noteq> []" "list_all isSpace ws" "m \<noteq> []"
    "filter isLineTerminator m = []" "greedy m" by blast
  then obtain c vs where v: "ws = c # vs" by (cases ws) auto
  with w have "space_plus (vs @ m) = Some m"
    by (subst space_plus_iff) auto
  with w v show "heading_match l = Some m" by simp
qed

text \<open>
  The split gives back the lines of a text, a line that is no heading does not match,
  and the group of a heading is its text but for white space at its start.
\<close>

lemma split_nl_no_lf: "no_lf l \<Longrightarrow> split_nl l = [l]"
  by (induction l) (auto simp: no_lf_def split: if_splits)

lemma split_nl_append:
  "no_lf l \<Longrightarrow> split_nl (l @ 0x0A # s) = l # split_nl s"
  by (induction l) (auto simp: no_lf_def split: if_splits list.splits)

lemma split_nl_join_lines:
  "ls \<noteq> [] \<Longrightarrow> list_all no_lf ls \<Longrightarrow> split_nl (join_lines ls) = ls"
proof (induction ls rule: join_lines.induct)
  case 1
  then show ?case by simp
next
  case (2 l)
  then show ?case by (simp add: split_nl_no_lf)
next
  case (3 l k ls)
  then show ?case by (simp add: split_nl_append del: split_nl.simps)
qed

lemma heading_match_is_heading: "heading_match l = Some g \<Longrightarrow> is_heading l"
proof -
  assume "heading_match l = Some g"
  then obtain ws where w: "l = 0x23 # ws @ g" "ws \<noteq> []" "list_all isSpace ws" "g \<noteq> []"
    "filter isLineTerminator g = []"
    by (auto simp: heading_match_iff)
  then have "0 < length ws" "0 < length g" by simp_all
  then have "length ws \<in> set [1 ..< length (ws @ g)]" by (simp add: Suc_le_eq)
  with w show ?thesis
    by (auto simp: is_heading_def list_ex_iff intro!: bexI [of _ "length ws"])
qed

lemma not_heading: "\<not> is_heading l \<Longrightarrow> heading_match l = None"
  using heading_match_is_heading by (cases "heading_match l") auto

lemma trim_leading_spaces: "list_all isSpace ws \<Longrightarrow> trim (ws @ g) = trim g"
  by (simp add: trim_def list_all_iff)

lemma space_plus_group:
  "list_all isSpace sp \<Longrightarrow> m \<noteq> [] \<Longrightarrow> filter isLineTerminator m = [] \<Longrightarrow>
   \<exists>g. space_plus (sp @ m) = Some g \<and> trim g = trim m"
proof (induction sp)
  case Nil
  from space_plus_total [OF Nil(2,3)] obtain g where g: "space_plus m = Some g" by blast
  then obtain ws where "m = ws @ g" "list_all isSpace ws" by (auto simp: space_plus_iff)
  with g show ?case by (auto simp: trim_leading_spaces)
next
  case (Cons c sp)
  then obtain g where "space_plus (sp @ m) = Some g" "trim g = trim m" by auto
  with Cons.prems show ?case by simp
qed

lemma heading_match_group:
  "sp \<noteq> [] \<Longrightarrow> list_all isSpace sp \<Longrightarrow> m \<noteq> [] \<Longrightarrow> filter isLineTerminator m = [] \<Longrightarrow>
   \<exists>g. heading_match (0x23 # sp @ m) = Some g \<and> trim g = trim m"
proof -
  assume a: "sp \<noteq> []" "list_all isSpace sp" "m \<noteq> []" "filter isLineTerminator m = []"
  then obtain c cs where c: "sp = c # cs" by (cases sp) auto
  with a space_plus_group [of cs m] show ?thesis by auto
qed

lemma first_heading_skip:
  "list_all (\<lambda>l. \<not> is_heading l) before \<Longrightarrow> first_heading (before @ ls) = first_heading ls"
  by (induction before) (auto simp: not_heading)

text \<open>The two examples of the specification.\<close>

lemma extractTitle_examples:
  "extractTitle (js ''# Hello World'' @ [0x0A] @ js ''body'') fname = js ''Hello World''"
  "extractTitle (js ''no heading'') (js ''foo.md'') = js ''foo''"
  by (simp_all add: extractTitle_def js_def isSpace_def isWhiteSpace_def isLineTerminator_def
        trim_def dot_plus_def)

text \<open>
  A heading line of a document with CRLF line ends keeps its CR after the split, and
  does not match: \<^verbatim>\<open>.\<close> does not take the CR and \<^verbatim>\<open>$\<close> is the end of the line.
\<close>

lemma extractTitle_crlf_heading:
  "extractTitle (js ''# Hello'' @ [0x0D, 0x0A] @ js ''body'') (js ''foo.md'') = js ''foo''"
  by (simp add: extractTitle_def js_def isSpace_def isWhiteSpace_def isLineTerminator_def
        trim_def dot_plus_def)

text \<open>
  The fallback does remove the extension of a name in which \<^verbatim>\<open>.md\<close> occurs at the end
  only.
\<close>

lemma replace_first_md_at_end:
  assumes "\<forall>i < length stem. \<not> prefix (js ''.md'') (drop i (stem @ js ''.md''))"
  shows "replace_first (js ''.md'') [] (stem @ js ''.md'') = stem"
  using assms
proof (induction stem)
  case Nil
  then show ?case by (simp add: js_def)
next
  case (Cons c cs)
  from Cons.prems have "\<not> prefix (js ''.md'') (drop 0 ((c # cs) @ js ''.md''))" by blast
  then have n: "\<not> prefix (js ''.md'') (c # cs @ js ''.md'')" by simp
  have "\<forall>i < length cs. \<not> prefix (js ''.md'') (drop i (cs @ js ''.md''))"
  proof (intro allI impI)
    fix i assume "i < length cs"
    then have "Suc i < length (c # cs)" by simp
    with Cons.prems have "\<not> prefix (js ''.md'') (drop (Suc i) ((c # cs) @ js ''.md''))" by blast
    then show "\<not> prefix (js ''.md'') (drop i (cs @ js ''.md''))" by simp
  qed
  with Cons.IH n show ?case by simp
qed

section \<open>Lemmas about the polling timer\<close>

lemma after_simps [simp]:
  "after (g, None) = \<lparr>globals = g, in_flight = []\<rparr>"
  "after (g, Some c) = \<lparr>globals = g, in_flight = [c]\<rparr>"
  by (simp_all add: after_def)

lemma settle_alone:
  "resume c s g = Some r \<Longrightarrow> settle 0 s \<lparr>globals = g, in_flight = [c]\<rparr> = Some (after r)"
  by (cases r) (auto simp: settle_def split: option.splits)

lemma run_append: "run (evs @ evs') w = (case run evs w of None \<Rightarrow> None | Some w' \<Rightarrow> run evs' w')"
  by (induction evs arbitrary: w) (auto split: option.splits)

lemma run_content_events:
  "run (content_events net files) (after (next_file files rules g)) =
     Some \<lparr>globals = (case fetch_contents net files rules g of (r, g') \<Rightarrow> g'\<lparr>cachedRules := r\<rparr>),
          in_flight = []\<rparr>"
proof (induction files arbitrary: rules g)
  case Nil
  then show ?case by (simp add: complete_def)
next
  case (Cons f fs)
  let ?g = "perform (HttpGet (gh_download_url f) None) g"
  show ?case
  proof (cases "download net (gh_download_url f)")
    case ContentRejected
    then show ?thesis
      by (simp add: settle_alone Cons.IH)
  next
    case (ContentResponse status body)
    show ?thesis
    proof (cases "ok status")
      case False
      with ContentResponse show ?thesis
        by (simp add: settle_alone Cons.IH)
    next
      case True
      with ContentResponse show ?thesis
        by (cases body) (simp_all add: settle_alone Cons.IH)
    qed
  qed
qed

text \<open>A run of the callback that no other run overlaps is \<open>poll\<close>.\<close>

lemma lone_cycle:
  "run (cycle_events net st) \<lparr>globals = st, in_flight = []\<rparr> =
     Some \<lparr>globals = poll net st, in_flight = []\<rparr>"
proof -
  let ?st1 = "perform (HttpGet apiUrl (if_none_match st)) st"
  have t: "tick \<lparr>globals = st, in_flight = []\<rparr> = \<lparr>globals = ?st1, in_flight = [AwaitListing]\<rparr>"
    by (simp add: tick_def)
  show ?thesis
  proof (cases "listing net (if_none_match st)")
    case ListingRejected
    then show ?thesis
      by (simp add: cycle_events_def t settle_alone caught_def complete_def poll_def
            fetchRulesFromGitHub_def try_block_def Let_def)
  next
    case (ListingResponse status newEtag payload)
    show ?thesis
    proof (cases "status \<noteq> 304 \<and> ok status")
      case False
      with ListingResponse show ?thesis
        by (auto simp add: cycle_events_def t settle_alone caught_def complete_def poll_def
              fetchRulesFromGitHub_def try_block_def Let_def)
    next
      case True
      show ?thesis
      proof (cases payload)
        case None
        with True ListingResponse show ?thesis
          by (simp add: cycle_events_def t settle_alone caught_def complete_def poll_def
                fetchRulesFromGitHub_def try_block_def Let_def)
      next
        case (Some files)
        with True ListingResponse show ?thesis
          using run_content_events [of net "mdFiles files" "[]" "store_etag newEtag ?st1"]
          by (simp add: cycle_events_def t settle_alone poll_def
                fetchRulesFromGitHub_def try_block_def Let_def split: prod.splits)
      qed
    qed
  qed
qed

lemma resume_writes_at_end:
  "resume c s g = Some (g', Some c') \<Longrightarrow> cachedRules g' = cachedRules g"
  by (cases "(c, s, g)" rule: resume.cases)
     (auto simp: complete_def caught_def store_etag_def split: if_splits option.splits
           elim!: next_file.elims)

section \<open>Properties of the refresh cycle of the GitHub server\<close>

text \<open>
  C3. When the listing request fails entirely (the fetch is rejected, or the status is
  neither 304 nor 2xx), the refresh cycle gives back the entries of the cache as they
  were, whether the cache has entries or none; so the cache is the same after
  \<^verbatim>\<open>getRules\<close> and after a run of the polling callback.
\<close>

theorem listing_failure_keeps_snapshot:
  assumes "listing_failed (listing net (if_none_match st))"
  shows "fst (fetchRulesFromGitHub net st) = cachedRules st \<and>
         cachedRules (poll net st) = cachedRules st \<and>
         cachedRules (snd (getRules net st)) = cachedRules st"
proof -
  have f: "fetchRulesFromGitHub net st =
           (cachedRules st, perform (HttpGet apiUrl (if_none_match st)) st)"
    by (simp add: fetchRulesFromGitHub_def try_block_listing_failed [OF assms])
  show ?thesis by (simp add: f poll_def getRules_def)
qed

theorem listing_failure_keeps_snapshot_witness:
  "listing_failed (listing net_down (if_none_match st_cached)) \<and>
   cachedRules (poll net_down st_cached) = [(js ''a.md'', rule_a)] \<and>
   listing_failed (listing net_server_error (if_none_match st_initial)) \<and>
   cachedRules (poll net_server_error st_initial) = []"
proof -
  have h: "listing_failed (listing net_down (if_none_match st_cached))"
    by (simp add: net_down_def listing_failed_def)
  have i: "listing_failed (listing net_server_error (if_none_match st_initial))"
    by (simp add: net_server_error_def listing_failed_def ok_def)
  have c: "cachedRules st_cached = [(js ''a.md'', rule_a)]" "cachedRules st_initial = []"
    by (simp_all add: st_cached_def st_initial_def)
  from listing_failure_keeps_snapshot [OF h] listing_failure_keeps_snapshot [OF i] h i c
  show ?thesis by simp
qed

text \<open>
  C5. When the listing request is answered with 304, the refresh cycle returns the cached
  entries as they are, the stored ETag is not touched, and the listing request is the
  only request sent: no document is fetched. A run of the polling callback leaves the
  state as it was, but for the record of that one request.
\<close>

theorem not_modified_keeps_snapshot_and_etag:
  assumes "listing net (if_none_match st) = ListingResponse 304 newEtag payload"
  shows "fetchRulesFromGitHub net st =
           (cachedRules st, perform (HttpGet apiUrl (if_none_match st)) st) \<and>
         poll net st = perform (HttpGet apiUrl (if_none_match st)) st \<and>
         cachedRules (poll net st) = cachedRules st \<and>
         lastEtag (poll net st) = lastEtag st \<and>
         effects (poll net st) = effects st @ [HttpGet apiUrl (if_none_match st)]"
proof -
  have f: "fetchRulesFromGitHub net st =
           (cachedRules st, perform (HttpGet apiUrl (if_none_match st)) st)"
    by (rule fetchRulesFromGitHub_not_modified [OF assms])
  have p: "poll net st = perform (HttpGet apiUrl (if_none_match st)) st"
    by (simp add: poll_def f set_cachedRules_same)
  show ?thesis by (simp add: f p)
qed

theorem not_modified_keeps_snapshot_and_etag_witness:
  "listing net_not_modified (if_none_match st_cached) = ListingResponse 304 None None \<and>
   cachedRules (poll net_not_modified st_cached) = [(js ''a.md'', rule_a)] \<and>
   lastEtag (poll net_not_modified st_cached) = Some (js ''E1'') \<and>
   effects (poll net_not_modified st_cached) = [HttpGet apiUrl (Some (js ''E1''))]"
proof -
  have h: "listing net_not_modified (if_none_match st_cached) = ListingResponse 304 None None"
    by (simp add: net_not_modified_def)
  have c: "cachedRules st_cached = [(js ''a.md'', rule_a)]"
    "lastEtag st_cached = Some (js ''E1'')" "effects st_cached = []"
    by (simp_all add: st_cached_def)
  from not_modified_keeps_snapshot_and_etag [OF h] h c if_none_match_st_cached
  show ?thesis by simp
qed

text \<open>
  C9. When the listing request is answered with a 2xx status and an ETag (a value of
  \<^verbatim>\<open>headers.get('etag')\<close> that the test \<^verbatim>\<open>if (newEtag)\<close> lets through: a string
  that is not empty, as every entity tag is), the ETag is stored after the listing
  request and before the first request for a document, and it is still the stored ETag
  when the cycle ends, whatever the requests for the documents come to. So when a later
  cycle sends this ETag and is answered with 304, it returns the snapshot that the
  earlier cycle built, also when that cycle lost documents to failed downloads, and the
  ETag stays.
\<close>

theorem etag_stored_before_document_fetches:
  assumes "listing net (if_none_match st) = ListingResponse status (Some e) payload"
    and "ok status" and "e \<noteq> []"
  shows "lastEtag (poll net st) = Some e \<and>
         effects (poll net st) =
           effects st @ [HttpGet apiUrl (if_none_match st), StoreEtag e] @
           (case payload of
              None \<Rightarrow> []
            | Some files \<Rightarrow> map (\<lambda>f. HttpGet (gh_download_url f) None) (mdFiles files)) \<and>
         (listing later (Some e) = ListingResponse 304 newEtag payload' \<longrightarrow>
            fst (fetchRulesFromGitHub later (poll net st)) = cachedRules (poll net st) \<and>
            cachedRules (poll later (poll net st)) = cachedRules (poll net st) \<and>
            lastEtag (poll later (poll net st)) = Some e)"
proof -
  let ?st1 = "perform (HttpGet apiUrl (if_none_match st)) st"
  have s: "snd (fetchRulesFromGitHub net st) =
      (case payload of
         None \<Rightarrow> store_etag (Some e) ?st1
       | Some files \<Rightarrow> snd (fetch_contents net (mdFiles files) [] (store_etag (Some e) ?st1)))"
    using assms(1,2)
    by (cases payload) (simp_all add: fetchRulesFromGitHub_unparsed fetchRulesFromGitHub_listed)
  have t: "lastEtag (poll net st) = Some e"
    by (cases payload)
       (simp_all add: lastEtag_poll s fetch_contents_frame store_etag_Some [OF assms(3)])
  have u: "effects (poll net st) =
           effects st @ [HttpGet apiUrl (if_none_match st), StoreEtag e] @
           (case payload of
              None \<Rightarrow> []
            | Some files \<Rightarrow> map (\<lambda>f. HttpGet (gh_download_url f) None) (mdFiles files))"
    by (cases payload)
       (simp_all add: effects_poll s fetch_contents_effects store_etag_Some [OF assms(3)])
  have v: "fst (fetchRulesFromGitHub later (poll net st)) = cachedRules (poll net st) \<and>
           cachedRules (poll later (poll net st)) = cachedRules (poll net st) \<and>
           lastEtag (poll later (poll net st)) = Some e"
    if "listing later (Some e) = ListingResponse 304 newEtag payload'"
  proof -
    from that if_none_match_stored [OF assms(3) t]
    have "listing later (if_none_match (poll net st)) = ListingResponse 304 newEtag payload'"
      by simp
    from fetchRulesFromGitHub_not_modified [OF this] t
    show ?thesis by (simp add: poll_def [of later])
  qed
  from t u v show ?thesis by blast
qed

theorem etag_stored_before_document_fetches_witness:
  "lastEtag (poll net_changed st_cached) = Some (js ''E2'') \<and>
   effects (poll net_changed st_cached) =
     [HttpGet apiUrl (Some (js ''E1'')), StoreEtag (js ''E2''),
      HttpGet (js ''https://raw/a.md'') None, HttpGet (js ''https://raw/b.md'') None,
      HttpGet (js ''https://raw/c.md'') None] \<and>
   map fst (cachedRules (poll net_not_modified (poll net_changed st_cached))) =
     [js ''a.md'', js ''c.md'']"
proof -
  have n: "js ''E2'' \<noteq> []" by (simp add: js_def)
  have l: "listing net_not_modified (Some (js ''E2'')) = ListingResponse 304 None None"
    by (simp add: net_not_modified_def)
  have c: "map fst (cachedRules (poll net_changed st_cached)) = [js ''a.md'', js ''c.md'']"
    by code_simp
  have m: "map (\<lambda>f. HttpGet (gh_download_url f) None) (mdFiles [file_a, file_b, file_c]) =
     [HttpGet (js ''https://raw/a.md'') None, HttpGet (js ''https://raw/b.md'') None,
      HttpGet (js ''https://raw/c.md'') None]"
    by code_simp
  have e: "effects st_cached = []" by (simp add: st_cached_def)
  from etag_stored_before_document_fetches
         [OF listing_net_changed ok_200 n, of st_cached net_not_modified None None]
    l c m e if_none_match_st_cached
  show ?thesis by simp
qed

section \<open>Properties of the polling timer\<close>

text \<open>
  C8, as the code has it. The polling timer is not guarded against re-entry: every tick
  starts a run of the callback at once, which sends its listing request, whatever runs
  are still in flight; no tick is skipped or queued, so several runs can be in flight,
  each one a writer of the snapshot. A run writes the snapshot only when it ends, by
  one assignment: a run that is resumed and stays in flight has left the snapshot as it
  was. A run that no other run overlaps is the refresh cycle \<open>poll\<close>.
\<close>

theorem polling_timer_is_not_guarded:
  "step Tick w =
     Some \<lparr>globals = perform (HttpGet apiUrl (if_none_match (globals w))) (globals w),
           in_flight = in_flight w @ [AwaitListing]\<rparr> \<and>
   (resume c s g = Some (g', Some c') \<longrightarrow> cachedRules g' = cachedRules g) \<and>
   run (cycle_events net st) \<lparr>globals = st, in_flight = []\<rparr> =
     Some \<lparr>globals = poll net st, in_flight = []\<rparr>"
  by (simp add: tick_def lone_cycle resume_writes_at_end)

theorem polling_timer_is_not_guarded_witness:
  "resume AwaitListing (Response 200 (Some (js ''E2''))) st_cached
     = Some (store_etag (Some (js ''E2'')) st_cached, Some AwaitJson) \<and>
   cachedRules (store_etag (Some (js ''E2'')) st_cached) = cachedRules st_cached \<and>
   observe (tick w_cached) = ([js ''a.md''], Some (js ''E1''), 1) \<and>
   run (cycle_events net_changed st_cached) w_cached =
     Some \<lparr>globals = poll net_changed st_cached, in_flight = []\<rparr>"
proof -
  have r: "resume AwaitListing (Response 200 (Some (js ''E2''))) st_cached
     = Some (store_etag (Some (js ''E2'')) st_cached, Some AwaitJson)"
    by (simp add: ok_def)
  have o: "observe (tick w_cached) = ([js ''a.md''], Some (js ''E1''), 1)"
    by code_simp
  have w: "w_cached = \<lparr>globals = st_cached, in_flight = []\<rparr>"
    by (simp add: w_cached_def)
  from polling_timer_is_not_guarded
         [of w_cached AwaitListing "Response 200 (Some (js ''E2''))" st_cached
             "store_etag (Some (js ''E2'')) st_cached" AwaitJson net_changed st_cached]
    r o w
  show ?thesis by simp
qed

text \<open>
  C8 as it is stated fails. A second tick starts a run while the run of the first tick
  awaits its listing: two runs are in flight. Both go on to write the snapshot. In
  \<open>overlapping_events\<close> the second run ends first and publishes \<^verbatim>\<open>a.md\<close> and
  \<^verbatim>\<open>c.md\<close> under the ETag \<^verbatim>\<open>E2\<close>; the first run then ends and publishes the older
  listing, so that the snapshot has \<^verbatim>\<open>a.md\<close> alone while the stored ETag is
  \<^verbatim>\<open>E2\<close>.
\<close>

theorem tick_starts_during_cycle_counterexample:
  "run [Tick] w_cached =
     Some \<lparr>globals = perform (HttpGet apiUrl (Some (js ''E1''))) st_cached,
           in_flight = [AwaitListing]\<rparr> \<and>
   run [Tick, Tick] w_cached =
     Some \<lparr>globals = perform (HttpGet apiUrl (Some (js ''E1'')))
                        (perform (HttpGet apiUrl (Some (js ''E1''))) st_cached),
           in_flight = [AwaitListing, AwaitListing]\<rparr> \<and>
   map_option observe (run (take 9 overlapping_events) w_cached)
     = Some ([js ''a.md'', js ''c.md''], Some (js ''E2''), 1) \<and>
   map_option observe (run overlapping_events w_cached)
     = Some ([js ''a.md''], Some (js ''E2''), 0)"
  by code_simp

section \<open>Documents that cannot be fetched\<close>

text \<open>
  C4. In a refresh cycle whose enumeration succeeds, a listed document whose body cannot be
  fetched is absent from the published snapshot, whatever the cache held for its name,
  and a document whose body is fetched is in the snapshot with that body. This holds
  for the GitHub server (a rejected fetch, a status that is not ok, a body that cannot
  be read) and for the local server (a file that cannot be read). A document is an
  entry of the listing that is the only one of its name. A failure does not end the
  cycle: the GitHub server goes on to request every listed document, and the cycle has
  a result in every case, since \<open>fetchRulesFromGitHub\<close>, \<open>poll\<close> and \<open>loadRules\<close>
  are total functions in which every thrown error is caught, as in the source.
\<close>

theorem failed_document_is_omitted:
  "(listing net (if_none_match st) = ListingResponse status newEtag (Some files) \<and> ok status \<and>
    f \<in> set (mdFiles files) \<and> (\<forall>g \<in> set (mdFiles files). gh_name g = gh_name f \<longrightarrow> g = f) \<longrightarrow>
      (fetched net f = None \<longrightarrow> map_of (cachedRules (poll net st)) (gh_name f) = None) \<and>
      (fetched net f = Some b \<longrightarrow>
         map_of (cachedRules (poll net st)) (gh_name f) = Some (mkRule f b)) \<and>
      cachedRules (snd (getRules net st)) = cachedRules (poll net st) \<and>
      suffix (map (\<lambda>g. HttpGet (gh_download_url g) None) (mdFiles files))
        (effects (poll net st))) \<and>
   (existsSync fs \<and> readdirSync fs = Some names \<and>
    fname \<in> set names \<and> endsWith fname (js ''.md'') \<longrightarrow>
      (readFileSync fs fname = None \<longrightarrow>
         map_of (cachedRules_local (snd (getRules_local fs now lst))) fname = None) \<and>
      (readFileSync fs fname = Some c \<longrightarrow>
         map_of (cachedRules_local (snd (getRules_local fs now lst))) fname
           = Some (mkLocalRule fname c)))"
proof (intro conjI impI)
  assume a: "listing net (if_none_match st) = ListingResponse status newEtag (Some files) \<and>
    ok status \<and> f \<in> set (mdFiles files) \<and>
    (\<forall>g \<in> set (mdFiles files). gh_name g = gh_name f \<longrightarrow> g = f)"
  then have eq: "fetchRulesFromGitHub net st =
      fetch_contents net (mdFiles files) []
        (store_etag newEtag (perform (HttpGet apiUrl (if_none_match st)) st))"
    by (simp add: fetchRulesFromGitHub_listed)
  show "cachedRules (snd (getRules net st)) = cachedRules (poll net st)"
    by (simp add: cachedRules_poll cachedRules_getRules)
  show "suffix (map (\<lambda>g. HttpGet (gh_download_url g) None) (mdFiles files))
        (effects (poll net st))"
    by (simp add: effects_poll eq fetch_contents_effects suffixI)
  { assume n: "fetched net f = None"
    with a have "\<forall>g \<in> set (mdFiles files). gh_name g = gh_name f \<longrightarrow> fetched net g = None"
      by blast
    from fetch_contents_absent [OF this]
    show "map_of (cachedRules (poll net st)) (gh_name f) = None"
      by (simp add: cachedRules_poll eq) }
  { assume "fetched net f = Some b"
    with a fetch_contents_present [of f "mdFiles files" net b]
    show "map_of (cachedRules (poll net st)) (gh_name f) = Some (mkRule f b)"
      by (simp add: cachedRules_poll eq) }
next
  assume a: "existsSync fs \<and> readdirSync fs = Some names \<and>
    fname \<in> set names \<and> endsWith fname (js ''.md'')"
  then have m: "map_of (loadRules fs) fname = map_option (mkLocalRule fname) (readFileSync fs fname)"
    by (simp add: loadRules_map_of)
  { assume "readFileSync fs fname = None"
    with m show "map_of (cachedRules_local (snd (getRules_local fs now lst))) fname = None"
      by (simp add: getRules_local_def Let_def) }
  { assume "readFileSync fs fname = Some c"
    with m show "map_of (cachedRules_local (snd (getRules_local fs now lst))) fname
           = Some (mkLocalRule fname c)"
      by (simp add: getRules_local_def Let_def) }
qed

theorem failed_document_is_omitted_witness:
  "map_of (cachedRules (poll net_changed st_cached)) (js ''b.md'') = None \<and>
   map_of (cachedRules (poll net_changed st_cached)) (js ''c.md'')
     = Some (mkRule file_c (js ''no heading'')) \<and>
   map_of (cachedRules_local (snd (getRules_local fs_three 2 st_loaded))) (js ''b.md'') = None \<and>
   map_of (cachedRules_local (snd (getRules_local fs_three 2 st_loaded))) (js ''c.md'')
     = Some (mkLocalRule (js ''c.md'') (js ''no heading''))"
proof -
  have m: "file_b \<in> set (mdFiles [file_a, file_b, file_c])"
    "file_c \<in> set (mdFiles [file_a, file_b, file_c])" by code_simp+
  have u: "\<forall>g \<in> set (mdFiles [file_a, file_b, file_c]). gh_name g = gh_name file_b \<longrightarrow> g = file_b"
    "\<forall>g \<in> set (mdFiles [file_a, file_b, file_c]). gh_name g = gh_name file_c \<longrightarrow> g = file_c"
    by code_simp+
  have f: "fetched net_changed file_b = None"
    "fetched net_changed file_c = Some (js ''no heading'')" by code_simp+
  have n: "gh_name file_b = js ''b.md''" "gh_name file_c = js ''c.md''"
    by (simp_all add: file_b_def file_c_def)
  have e: "existsSync fs_three"
    "readdirSync fs_three = Some [js ''a.md'', js ''b.md'', js ''c.md'', js ''notes.txt'']"
    by (simp_all add: fs_three_def)
  have l: "js ''b.md'' \<in> set [js ''a.md'', js ''b.md'', js ''c.md'', js ''notes.txt'']"
    "js ''c.md'' \<in> set [js ''a.md'', js ''b.md'', js ''c.md'', js ''notes.txt'']"
    "endsWith (js ''b.md'') (js ''.md'')" "endsWith (js ''c.md'') (js ''.md'')"
    "readFileSync fs_three (js ''b.md'') = None"
    "readFileSync fs_three (js ''c.md'') = Some (js ''no heading'')"
    by code_simp+
  note remote_and_local =
    failed_document_is_omitted
      [where net = net_changed and st = st_cached and status = 200
         and newEtag = "Some (js ''E2'')" and files = "[file_a, file_b, file_c]"
         and fs = fs_three and now = 2 and lst = st_loaded
         and names = "[js ''a.md'', js ''b.md'', js ''c.md'', js ''notes.txt'']"]
  from remote_and_local [where f = file_b and fname = "js ''b.md''"]
    listing_net_changed ok_200 m(1) u(1) f(1) e l
  have b: "map_of (cachedRules (poll net_changed st_cached)) (gh_name file_b) = None \<and>
    map_of (cachedRules_local (snd (getRules_local fs_three 2 st_loaded))) (js ''b.md'') = None"
    by blast
  from remote_and_local [where f = file_c and b = "js ''no heading''"
                           and fname = "js ''c.md''" and c = "js ''no heading''"]
    listing_net_changed ok_200 m(2) u(2) f(2) e l
  have c: "map_of (cachedRules (poll net_changed st_cached)) (gh_name file_c)
     = Some (mkRule file_c (js ''no heading'')) \<and>
    map_of (cachedRules_local (snd (getRules_local fs_three 2 st_loaded))) (js ''c.md'')
     = Some (mkLocalRule (js ''c.md'') (js ''no heading''))"
    by blast
  from b c show ?thesis unfolding n by blast
qed

section \<open>The request handlers of the GitHub server\<close>

text \<open>
  C1, as the code has it. Every resource-list operation, and every resource-read
  operation whose identifier parses as a URL, runs a refresh cycle of its own through
  \<^verbatim>\<open>getRules\<close>: it sends the listing request, with the stored ETag as its condition,
  stores the mapping that the cycle returns as the cached mapping, and answers from that
  mapping. When the listing is answered with 304, the answer comes from the mapping
  cached before, the cached mapping and the stored ETag are unchanged, and the listing
  request is the only request sent.
\<close>

theorem list_and_read_run_a_refresh_cycle:
  "fst (ListResources net st) = map to_resource (cachedRules (snd (ListResources net st))) \<and>
   cachedRules (snd (ListResources net st)) = fst (fetchRulesFromGitHub net st) \<and>
   prefix (effects st @ [HttpGet apiUrl (if_none_match st)])
     (effects (snd (ListResources net st))) \<and>
   (new_URL u = Some p \<longrightarrow>
      fst (ReadResource new_URL net st u) =
        respond u (strip_slash p) (cachedRules (snd (ReadResource new_URL net st u))) \<and>
      cachedRules (snd (ReadResource new_URL net st u)) = fst (fetchRulesFromGitHub net st) \<and>
      prefix (effects st @ [HttpGet apiUrl (if_none_match st)])
        (effects (snd (ReadResource new_URL net st u)))) \<and>
   (listing net (if_none_match st) = ListingResponse 304 newEtag payload \<longrightarrow>
      ListResources net st =
        (map to_resource (cachedRules st), perform (HttpGet apiUrl (if_none_match st)) st) \<and>
      (new_URL u = Some p \<longrightarrow>
         ReadResource new_URL net st u =
           (respond u (strip_slash p) (cachedRules st),
            perform (HttpGet apiUrl (if_none_match st)) st)))"
  by (simp add: ListResources_conv ReadResource_conv fst_getRules cachedRules_getRules
        effects_getRules fetchRulesFromGitHub_contacts getRules_not_modified)

theorem list_and_read_run_a_refresh_cycle_witness:
  "URL_pathname (js ''rule:///a.md'') = Some (js ''/a.md'') \<and>
   listing net_not_modified (if_none_match st_cached) = ListingResponse 304 None None \<and>
   ListResources net_not_modified st_cached =
     (map to_resource (cachedRules st_cached), perform (HttpGet apiUrl (Some (js ''E1''))) st_cached) \<and>
   ReadResource URL_pathname net_not_modified st_cached (js ''rule:///a.md'') =
     (Inr [\<lparr>contents_uri = js ''rule:///a.md'', contents_mimeType = js ''text/markdown'',
            contents_text = Some (js ''# A'')\<rparr>],
      perform (HttpGet apiUrl (Some (js ''E1''))) st_cached)"
proof -
  have p: "URL_pathname (js ''rule:///a.md'') = Some (js ''/a.md'')" by code_simp
  have h: "listing net_not_modified (if_none_match st_cached) = ListingResponse 304 None None"
    by (simp add: net_not_modified_def)
  have r: "respond (js ''rule:///a.md'') (strip_slash (js ''/a.md'')) (cachedRules st_cached) =
     Inr [\<lparr>contents_uri = js ''rule:///a.md'', contents_mimeType = js ''text/markdown'',
           contents_text = Some (js ''# A'')\<rparr>]"
    by code_simp
  from list_and_read_run_a_refresh_cycle
         [of net_not_modified st_cached URL_pathname "js ''rule:///a.md''" "js ''/a.md''"
             None None]
    p h r if_none_match_st_cached
  show ?thesis by simp
qed

text \<open>
  C1 as it is stated fails. The cache holds \<^verbatim>\<open>a.md\<close> under the ETag \<^verbatim>\<open>E1\<close>, and
  the repository has changed. A resource-list operation sends the listing request and
  three requests for documents, stores the new ETag, replaces the cached mapping and
  lists \<^verbatim>\<open>c.md\<close>, which was in no background refresh; a resource-read operation
  returns the content of \<^verbatim>\<open>c.md\<close>, which the cache did not hold.
\<close>

theorem list_and_read_contact_source_counterexample:
  "map uri (map to_resource (cachedRules st_cached)) = [js ''rule:///a.md''] \<and>
   map uri (fst (ListResources net_changed st_cached)) = [js ''rule:///a.md'', js ''rule:///c.md''] \<and>
   cachedRules (snd (ListResources net_changed st_cached)) \<noteq> cachedRules st_cached \<and>
   lastEtag st_cached = Some (js ''E1'') \<and>
   lastEtag (snd (ListResources net_changed st_cached)) = Some (js ''E2'') \<and>
   effects st_cached = [] \<and>
   effects (snd (ListResources net_changed st_cached)) =
     [HttpGet apiUrl (Some (js ''E1'')), StoreEtag (js ''E2''),
      HttpGet (js ''https://raw/a.md'') None, HttpGet (js ''https://raw/b.md'') None,
      HttpGet (js ''https://raw/c.md'') None] \<and>
   map_of (cachedRules st_cached) (js ''c.md'') = None \<and>
   fst (ReadResource URL_pathname net_changed st_cached (js ''rule:///c.md'')) =
     Inr [\<lparr>contents_uri = js ''rule:///c.md'', contents_mimeType = js ''text/markdown'',
           contents_text = Some (js ''no heading'')\<rparr>]"
  by code_simp

section \<open>Reads that fail\<close>

text \<open>
  C2, as the code has it, for both servers. A read request whose identifier cannot be
  parsed as a URL fails with the \<^verbatim>\<open>TypeError\<close> of the URL constructor, thrown before
  \<^verbatim>\<open>getRules\<close> is called, and leaves the state as it was. A read of a name that the
  freshly refreshed snapshot does not have (and that is not the name of a property
  inherited from \<^verbatim>\<open>Object.prototype\<close>) fails with
  \<^verbatim>\<open>Error("Rule <name> not found")\<close>, thrown after \<^verbatim>\<open>getRules\<close> has run: the
  state after it is the state that \<^verbatim>\<open>getRules\<close> leaves. The two errors are different
  values.
\<close>

theorem read_failures_malformed_and_not_found:
  "(new_URL u = None \<longrightarrow>
      ReadResource new_URL net st u = (Inl TypeError_Invalid_URL, st) \<and>
      ReadResource_local new_URL fs now lst u = (Inl TypeError_Invalid_URL, lst)) \<and>
   (new_URL u = Some p \<and> map_of (fst (getRules net st)) (strip_slash p) = None \<and>
    strip_slash p \<notin> set Object_prototype_keys \<longrightarrow>
      ReadResource new_URL net st u =
        (Inl (Error (js ''Rule '' @ strip_slash p @ js '' not found'')), snd (getRules net st))) \<and>
   (new_URL u = Some p \<and> map_of (loadRules fs) (strip_slash p) = None \<and>
    strip_slash p \<notin> set Object_prototype_keys \<longrightarrow>
      ReadResource_local new_URL fs now lst u =
        (Inl (Error (js ''Rule '' @ strip_slash p @ js '' not found'')),
         \<lparr>cachedRules_local = loadRules fs, lastLoadTime = now\<rparr>)) \<and>
   TypeError_Invalid_URL \<noteq> Error msg"
  by (simp add: ReadResource_conv ReadResource_local_conv respond_absent)
     (simp add: ReadResource_def ReadResource_local_def)

theorem read_failures_malformed_and_not_found_witness:
  "ReadResource URL_pathname net_changed st_cached (js ''not a url'')
     = (Inl TypeError_Invalid_URL, st_cached) \<and>
   ReadResource_local URL_pathname fs_three 2 st_loaded (js ''not a url'')
     = (Inl TypeError_Invalid_URL, st_loaded) \<and>
   ReadResource URL_pathname net_changed st_cached (js ''rule:///missing.md'')
     = (Inl (Error (js ''Rule missing.md not found'')), snd (getRules net_changed st_cached)) \<and>
   ReadResource_local URL_pathname fs_three 2 st_loaded (js ''rule:///missing.md'')
     = (Inl (Error (js ''Rule missing.md not found'')),
        \<lparr>cachedRules_local = loadRules fs_three, lastLoadTime = 2\<rparr>)"
proof -
  have n: "URL_pathname (js ''not a url'') = None" by code_simp
  have p: "URL_pathname (js ''rule:///missing.md'') = Some (js ''/missing.md'')" by code_simp
  have a: "map_of (fst (getRules net_changed st_cached)) (strip_slash (js ''/missing.md'')) = None"
    "map_of (loadRules fs_three) (strip_slash (js ''/missing.md'')) = None"
    "strip_slash (js ''/missing.md'') \<notin> set Object_prototype_keys"
    by code_simp+
  have m: "js ''Rule '' @ strip_slash (js ''/missing.md'') @ js '' not found''
             = js ''Rule missing.md not found''"
    by code_simp
  from read_failures_malformed_and_not_found
         [of URL_pathname "js ''not a url''" net_changed st_cached fs_three 2 st_loaded]
       read_failures_malformed_and_not_found
         [of URL_pathname "js ''rule:///missing.md''" net_changed st_cached fs_three 2 st_loaded
             "js ''/missing.md''"]
    n p a m
  show ?thesis by simp
qed

text \<open>
  C2 as it is stated fails. The identifier \<^verbatim>\<open>not a url\<close> and the identifier of a
  missing document fail with different errors. Here the first leaves the state as it
  was, and the read of the missing document has refreshed the cache, which now has
  \<^verbatim>\<open>c.md\<close> too.
\<close>

theorem malformed_and_not_found_differ_counterexample:
  "fst (ReadResource URL_pathname net_changed st_cached (js ''not a url''))
     = Inl TypeError_Invalid_URL \<and>
   fst (ReadResource URL_pathname net_changed st_cached (js ''rule:///missing.md''))
     = Inl (Error (js ''Rule missing.md not found'')) \<and>
   fst (ReadResource URL_pathname net_changed st_cached (js ''not a url''))
     \<noteq> fst (ReadResource URL_pathname net_changed st_cached (js ''rule:///missing.md'')) \<and>
   snd (ReadResource URL_pathname net_changed st_cached (js ''not a url'')) = st_cached \<and>
   map fst (cachedRules st_cached) = [js ''a.md''] \<and>
   map fst (cachedRules (snd (ReadResource URL_pathname net_changed st_cached
                                (js ''rule:///missing.md'')))) = [js ''a.md'', js ''c.md'']"
  by code_simp

section \<open>The request handlers of the local server\<close>

text \<open>
  C7, as the code has it. Every list request, and every read request whose identifier
  parses as a URL, rebuilds the mapping from the directory before it answers, and
  answers from the rebuilt mapping, whatever the cache held; a read request whose
  identifier does not parse leaves the state as it was. So a document whose file is no
  longer in the directory is not in the next list, with no restart.
\<close>

theorem local_requests_rebuild:
  "ListResources_local fs now lst =
     (map to_resource (loadRules fs), \<lparr>cachedRules_local = loadRules fs, lastLoadTime = now\<rparr>) \<and>
   (new_URL u = Some p \<longrightarrow>
      ReadResource_local new_URL fs now lst u =
        (respond u (strip_slash p) (loadRules fs),
         \<lparr>cachedRules_local = loadRules fs, lastLoadTime = now\<rparr>)) \<and>
   (new_URL u = None \<longrightarrow> snd (ReadResource_local new_URL fs now lst u) = lst) \<and>
   (readdirSync fs = Some names \<and> k \<notin> set names \<longrightarrow>
      js ''rule:///'' @ k \<notin> uri ` set (fst (ListResources_local fs now lst)))"
proof -
  have "js ''rule:///'' @ k \<notin> uri ` set (fst (ListResources_local fs now lst))"
    if "readdirSync fs = Some names" and "k \<notin> set names"
  proof
    assume "js ''rule:///'' @ k \<in> uri ` set (fst (ListResources_local fs now lst))"
    then obtain n r where "(n, r) \<in> set (loadRules fs)"
      and "js ''rule:///'' @ k = js ''rule:///'' @ n"
      by (auto simp: ListResources_local_conv uri_to_resource)
    then have "k \<in> fst ` set (loadRules fs)" by force
    with loadRules_keys [OF that(1)] that(2) show False by blast
  qed
  then show ?thesis
    by (simp add: ListResources_local_conv ReadResource_local_conv)
       (simp add: ReadResource_local_def)
qed

theorem local_requests_rebuild_witness:
  "readdirSync fs_deleted = Some [js ''b.md'', js ''c.md'', js ''notes.txt''] \<and>
   js ''a.md'' \<notin> set [js ''b.md'', js ''c.md'', js ''notes.txt''] \<and>
   js ''rule:///a.md'' \<notin> uri ` set (fst (ListResources_local fs_deleted 2 st_loaded)) \<and>
   snd (ListResources_local fs_deleted 2 st_loaded) =
     \<lparr>cachedRules_local = loadRules fs_deleted, lastLoadTime = 2\<rparr> \<and>
   ReadResource_local URL_pathname fs_deleted 2 st_loaded (js ''rule:///c.md'') =
     (Inr [\<lparr>contents_uri = js ''rule:///c.md'', contents_mimeType = js ''text/markdown'',
            contents_text = Some (js ''no heading'')\<rparr>],
      \<lparr>cachedRules_local = loadRules fs_deleted, lastLoadTime = 2\<rparr>)"
proof -
  have d: "readdirSync fs_deleted = Some [js ''b.md'', js ''c.md'', js ''notes.txt'']"
    by (simp add: fs_deleted_def)
  have k: "js ''a.md'' \<notin> set [js ''b.md'', js ''c.md'', js ''notes.txt'']" by code_simp
  have p: "URL_pathname (js ''rule:///c.md'') = Some (js ''/c.md'')" by code_simp
  have a: "js ''rule:///'' @ js ''a.md'' = js ''rule:///a.md''" by (simp add: js_def)
  have r: "respond (js ''rule:///c.md'') (strip_slash (js ''/c.md'')) (loadRules fs_deleted) =
     Inr [\<lparr>contents_uri = js ''rule:///c.md'', contents_mimeType = js ''text/markdown'',
           contents_text = Some (js ''no heading'')\<rparr>]"
    by code_simp
  note rebuilt =
    local_requests_rebuild
      [of fs_deleted 2 st_loaded URL_pathname "js ''rule:///c.md''" "js ''/c.md''"
          "[js ''b.md'', js ''c.md'', js ''notes.txt'']" "js ''a.md''"]
  from rebuilt have "snd (ListResources_local fs_deleted 2 st_loaded) =
     \<lparr>cachedRules_local = loadRules fs_deleted, lastLoadTime = 2\<rparr>"
    by simp
  moreover from rebuilt p
  have "ReadResource_local URL_pathname fs_deleted 2 st_loaded (js ''rule:///c.md'') =
     (respond (js ''rule:///c.md'') (strip_slash (js ''/c.md'')) (loadRules fs_deleted),
      \<lparr>cachedRules_local = loadRules fs_deleted, lastLoadTime = 2\<rparr>)"
    by blast
  moreover from rebuilt d k
  have "js ''rule:///'' @ js ''a.md'' \<notin> uri ` set (fst (ListResources_local fs_deleted 2 st_loaded))"
    by blast
  ultimately show ?thesis
    unfolding a r using d k by blast
qed

text \<open>
  C7 as it is stated fails for a read request whose identifier does not parse: the
  handler throws before \<^verbatim>\<open>getRules\<close> is called, so nothing is rebuilt. The cache
  still holds \<^verbatim>\<open>a.md\<close>, which a rebuild from the directory would not give.
\<close>

theorem malformed_read_skips_rebuild_counterexample:
  "snd (ReadResource_local URL_pathname fs_deleted 2 st_loaded (js ''not a url'')) = st_loaded \<and>
   map fst (cachedRules_local st_loaded) = [js ''a.md'', js ''c.md''] \<and>
   map fst (loadRules fs_deleted) = [js ''c.md'']"
  by code_simp

section \<open>Properties of the title\<close>

text \<open>
  C10. Take a document as its lines. When its first line that is a heading is \<^verbatim>\<open>#\<close>
  followed by white space only, \<open>extractTitle\<close> returns the empty string, not the name
  of the file, whatever lines come before and after it. In general the title is the
  trimmed text of the first heading, and the fallback is the result only when no line
  of the document is a heading.
\<close>

theorem whitespace_heading_gives_empty_title:
  "(list_all no_lf (before @ [0x23 # sp @ m] @ rest) \<and>
    list_all (\<lambda>l. \<not> is_heading l) before \<and>
    sp \<noteq> [] \<and> list_all isSpace sp \<and> m \<noteq> [] \<and> filter isLineTerminator m = [] \<longrightarrow>
      extractTitle (join_lines (before @ [0x23 # sp @ m] @ rest)) fname = trim m \<and>
      (list_all isSpace m \<longrightarrow>
         extractTitle (join_lines (before @ [0x23 # sp @ m] @ rest)) fname = [])) \<and>
   (list_all no_lf ls \<and> list_all (\<lambda>l. \<not> is_heading l) ls \<longrightarrow>
      extractTitle (join_lines ls) fname = replace_first (js ''.md'') [] fname)"
proof (intro conjI impI)
  assume a: "list_all no_lf (before @ [0x23 # sp @ m] @ rest) \<and>
    list_all (\<lambda>l. \<not> is_heading l) before \<and>
    sp \<noteq> [] \<and> list_all isSpace sp \<and> m \<noteq> [] \<and> filter isLineTerminator m = []"
  then have s: "split_nl (join_lines (before @ [0x23 # sp @ m] @ rest))
      = before @ [0x23 # sp @ m] @ rest"
    by (intro split_nl_join_lines) simp_all
  from a obtain g where g: "heading_match (0x23 # sp @ m) = Some g" "trim g = trim m"
    using heading_match_group [of sp m] by blast
  from a have "first_heading (before @ [0x23 # sp @ m] @ rest)
      = first_heading ([0x23 # sp @ m] @ rest)"
    by (intro first_heading_skip) simp
  with g have "first_heading (before @ [0x23 # sp @ m] @ rest) = Some g"
    by (simp del: heading_match.simps)
  with g show t: "extractTitle (join_lines (before @ [0x23 # sp @ m] @ rest)) fname = trim m"
    unfolding extractTitle_def s by simp
  assume "list_all isSpace m"
  with t show "extractTitle (join_lines (before @ [0x23 # sp @ m] @ rest)) fname = []"
    by (simp add: trim_spaces)
next
  assume a: "list_all no_lf ls \<and> list_all (\<lambda>l. \<not> is_heading l) ls"
  show "extractTitle (join_lines ls) fname = replace_first (js ''.md'') [] fname"
  proof (cases "ls = []")
    case True
    then show ?thesis by (simp add: extractTitle_def)
  next
    case False
    with a have "split_nl (join_lines ls) = ls" by (simp add: split_nl_join_lines)
    with a first_heading_skip [of ls "[]"] show ?thesis
      by (simp add: extractTitle_def)
  qed
qed

theorem whitespace_heading_gives_empty_title_witness:
  "extractTitle (js ''intro'' @ [0x0A] @ js ''#  '' @ [0x0A] @ js ''# Real'') (js ''foo.md'') = [] \<and>
   extractTitle (js ''# x'' @ [0x0D, 0x0A] @ js ''#  '') (js ''foo.md'') = [] \<and>
   extractTitle (js ''intro'' @ [0x0A] @ js ''# '') (js ''foo.md'') = js ''foo''"
proof -
  have j: "join_lines ([js ''intro''] @ [0x23 # js '' '' @ js '' ''] @ [js ''# Real''])
             = js ''intro'' @ [0x0A] @ js ''#  '' @ [0x0A] @ js ''# Real''"
    "join_lines ([js ''# x'' @ [0x0D]] @ [0x23 # js '' '' @ js '' ''] @ [])
             = js ''# x'' @ [0x0D, 0x0A] @ js ''#  ''"
    "join_lines [js ''intro'', js ''# ''] = js ''intro'' @ [0x0A] @ js ''# ''"
    by (simp_all add: js_def)
  have a: "list_all no_lf ([js ''intro''] @ [0x23 # js '' '' @ js '' ''] @ [js ''# Real''])"
    "list_all (\<lambda>l. \<not> is_heading l) [js ''intro'']"
    "list_all no_lf ([js ''# x'' @ [0x0D]] @ [0x23 # js '' '' @ js '' ''] @ [])"
    "list_all (\<lambda>l. \<not> is_heading l) [js ''# x'' @ [0x0D]]"
    "list_all no_lf [js ''intro'', js ''# '']"
    "list_all (\<lambda>l. \<not> is_heading l) [js ''intro'', js ''# '']"
    by code_simp+
  have s: "js '' '' \<noteq> []" "list_all isSpace (js '' '')" "filter isLineTerminator (js '' '') = []"
    by code_simp+
  have r: "replace_first (js ''.md'') [] (js ''foo.md'') = js ''foo''" by code_simp
  from whitespace_heading_gives_empty_title
         [of "[js ''intro'']" "js '' ''" "js '' ''" "[js ''# Real'']" "js ''foo.md''"
               "[js ''intro'', js ''# '']"] a s
  have 1: "extractTitle (join_lines ([js ''intro''] @ [0x23 # js '' '' @ js '' ''] @ [js ''# Real'']))
             (js ''foo.md'') = []"
    and 3: "extractTitle (join_lines [js ''intro'', js ''# '']) (js ''foo.md'')
             = replace_first (js ''.md'') [] (js ''foo.md'')"
    by blast+
  from whitespace_heading_gives_empty_title
         [of "[js ''# x'' @ [0x0D]]" "js '' ''" "js '' ''" "[]" "js ''foo.md''" "[]"] a s
  have 2: "extractTitle (join_lines ([js ''# x'' @ [0x0D]] @ [0x23 # js '' '' @ js '' ''] @ []))
             (js ''foo.md'') = []"
    by blast
  from 1 2 3 show ?thesis unfolding j r by blast
qed

text \<open>
  C6. The fallback of \<open>extractTitle\<close> removes the first \<^verbatim>\<open>.md\<close> of the name, which need
  not be its extension: for a document with no heading whose name is
  \<^verbatim>\<open>a.mdb.md\<close> the title is \<^verbatim>\<open>ab.md\<close>, where the name without its extension is
  \<^verbatim>\<open>a.mdb\<close>.
\<close>

theorem extractTitle_fallback_removes_first_md:
  "extractTitle (js ''no heading'') (js ''a.mdb.md'') = js ''ab.md'' \<and>
   name_without_md_extension (js ''a.mdb.md'') = js ''a.mdb''"
  by code_simp

end
